theory Spec2Isabelle
  imports Main
begin

section \<open>Values shared by the two programs\<close>

text \<open>
  Both programs handle decoded JSON documents. A Python \<open>dict\<close> produced by the JSON
  decoder keeps its keys in insertion order and has no duplicate key; it is an association
  list here, read with \<open>map_of\<close> and iterated in list order. A Python \<open>str\<close> is a
  \<open>JStr\<close>, \<open>None\<close> is \<open>JNull\<close>. Non-integer numbers are left out of the model.
\<close>

datatype json =
    JNull
  | JBool bool
  | JInt int
  | JStr string
  | JList "json list"
  | JObj "(string \<times> json) list"

text \<open>The exceptions the two programs can meet.\<close>

datatype error =
    RequestError string
  | HTTPStatusError int
  | JSONDecodeError
  | AttributeError
  | TypeError
  | ProgrammingError
  | OverflowError
  | OperationalError

text \<open>
  An \<open>httpx\<close> response: its status, its body text, and what \<open>resp.json()\<close> yields
  (\<open>None\<close> when the body is not a JSON document and the call raises).
\<close>

record response =
  status_code :: int
  resp_text :: string
  resp_json :: "json option"

section \<open>The proxy service (src/api/sleeper.py)\<close>

definition SLEEPER_BASE_URL :: string where
  "SLEEPER_BASE_URL = ''https://api.sleeper.app/v1''"

text \<open>
  An outbound request is the URL with the optional query parameters. The upstream is a
  function from the request to what \<open>client.get\<close> does: it raises an
  \<open>httpx.RequestError\<close> (carrying the text of the exception) or returns a response.
  Every handler returns its result together with the list of outbound requests it issued.
\<close>

type_synonym request = "string \<times> (string \<times> string) list option"

type_synonym upstream = "request \<Rightarrow> error + response"

datatype failure =
    HTTPException int string
  | Uncaught error

type_synonym reply = "(failure + json) \<times> request list"

definition sleeper_get :: "upstream \<Rightarrow> string \<Rightarrow> (string \<times> string) list option \<Rightarrow> reply" where
  "sleeper_get up path params =
     (let url = SLEEPER_BASE_URL @ path in
      (case up (url, params) of
         Inl (RequestError e) \<Rightarrow> Inl (HTTPException 502 (''Could not reach Sleeper: '' @ e))
       | Inl other \<Rightarrow> Inl (Uncaught other)
       | Inr resp \<Rightarrow>
           if status_code resp \<ge> 400
           then Inl (HTTPException (status_code resp) (resp_text resp))
           else (case resp_json resp of
                   None \<Rightarrow> Inl (Uncaught JSONDecodeError)
                 | Some j \<Rightarrow> Inr j),
       [(url, params)]))"

definition root :: reply where
  "root = (Inr (JObj [(''message'', JStr ''Hello World'')]), [])"

definition get_user :: "upstream \<Rightarrow> string \<Rightarrow> reply" where
  "get_user up user_id = sleeper_get up (''/user/'' @ user_id) None"

definition get_user_leagues :: "upstream \<Rightarrow> string \<Rightarrow> string \<Rightarrow> string \<Rightarrow> reply" where
  "get_user_leagues up user_id season sport =
     sleeper_get up (''/user/'' @ user_id @ ''/leagues/'' @ sport @ ''/'' @ season) None"

definition get_league :: "upstream \<Rightarrow> string \<Rightarrow> reply" where
  "get_league up league_id = sleeper_get up (''/league/'' @ league_id) None"

text \<open>
  The source binds the name \<open>get_league\<close> a second time for the rosters route; the
  decorator has registered the first function by then, so both routes stay. The second
  function is \<open>get_league_rosters\<close> here.
\<close>

definition get_league_rosters :: "upstream \<Rightarrow> string \<Rightarrow> reply" where
  "get_league_rosters up league_id = sleeper_get up (''/league/'' @ league_id @ ''/rosters'') None"

subsection \<open>The route table\<close>

text \<open>
  Each decorator \<open>@app.get(template)\<close> adds a route. A template is literal text and
  parameters \<open>{name}\<close>; a parameter matches a non-empty run of characters other than
  \<open>/\<close>, and the whole (percent-decoded) request path must be consumed. Routes are tried
  in the order of their registration and the first match is served. The handler receives
  the matched parameters by name.

  A path that none of the five templates matches is answered by the framework without a
  call of any function of the source (Not Found, a redirect for a trailing slash, or one
  of the documentation pages the framework adds); the model answers 404 there. Only
  \<open>GET\<close> requests are modelled.
\<close>

datatype piece = Lit string | Param string

fun strip_prefix :: "string \<Rightarrow> string \<Rightarrow> string option" where
  "strip_prefix [] s = Some s"
| "strip_prefix (c # l) [] = None"
| "strip_prefix (c # l) (d # s) = (if c = d then strip_prefix l s else None)"

fun match_path :: "piece list \<Rightarrow> string \<Rightarrow> (string \<times> string) list option" where
  "match_path [] s = (if s = [] then Some [] else None)"
| "match_path (Lit l # ps) s =
     (case strip_prefix l s of
        None \<Rightarrow> None
      | Some rest \<Rightarrow> match_path ps rest)"
| "match_path (Param n # ps) s =
     (let v = takeWhile (\<lambda>c. c \<noteq> CHR ''/'') s in
      if v = [] then None
      else (case match_path ps (dropWhile (\<lambda>c. c \<noteq> CHR ''/'') s) of
              None \<Rightarrow> None
            | Some bs \<Rightarrow> Some ((n, v) # bs)))"

definition arg :: "(string \<times> string) list \<Rightarrow> string \<Rightarrow> string" where
  "arg bs n = (case map_of bs n of Some v \<Rightarrow> v | None \<Rightarrow> [])"

type_synonym route = "piece list \<times> (upstream \<Rightarrow> (string \<times> string) list \<Rightarrow> reply)"

definition routes :: "route list" where
  "routes =
     [([Lit ''/''], \<lambda>up bs. root),
      ([Lit ''/sleeper/user/'', Param ''user_id''],
         \<lambda>up bs. get_user up (arg bs ''user_id'')),
      ([Lit ''/sleeper/'', Param ''user_id'', Lit ''/leagues/'', Param ''sport'', Lit ''/'',
        Param ''season''],
         \<lambda>up bs. get_user_leagues up (arg bs ''user_id'') (arg bs ''season'') (arg bs ''sport'')),
      ([Lit ''/sleeper/league/'', Param ''league_id''],
         \<lambda>up bs. get_league up (arg bs ''league_id'')),
      ([Lit ''/sleeper/league/'', Param ''league_id'', Lit ''/rosters''],
         \<lambda>up bs. get_league_rosters up (arg bs ''league_id''))]"

fun dispatch :: "route list \<Rightarrow> upstream \<Rightarrow> string \<Rightarrow> reply" where
  "dispatch [] up path = (Inl (HTTPException 404 ''Not Found''), [])"
| "dispatch ((t, h) # rs) up path =
     (case match_path t path of
        Some bs \<Rightarrow> h up bs
      | None \<Rightarrow> dispatch rs up path)"

definition app_get :: "upstream \<Rightarrow> string \<Rightarrow> reply" where
  "app_get up path = dispatch routes up path"

section \<open>The cache loader (src/db/scripts/cache_sleeper_players.py)\<close>

subsection \<open>Python values\<close>

text \<open>Truthiness, \<open>x or y\<close> and \<open>dict.get\<close> with its default \<open>None\<close>.\<close>

fun truthy :: "json \<Rightarrow> bool" where
  "truthy JNull = False"
| "truthy (JBool b) = b"
| "truthy (JInt i) = (i \<noteq> 0)"
| "truthy (JStr s) = (s \<noteq> [])"
| "truthy (JList xs) = (xs \<noteq> [])"
| "truthy (JObj kvs) = (kvs \<noteq> [])"

definition py_or :: "json \<Rightarrow> json \<Rightarrow> json" where
  "py_or x y = (if truthy x then x else y)"

definition dict_get :: "(string \<times> json) list \<Rightarrow> string \<Rightarrow> json" where
  "dict_get d k = (case map_of d k of Some v \<Rightarrow> v | None \<Rightarrow> JNull)"

text \<open>\<open>sep.join(xs)\<close> raises \<open>TypeError\<close> on an item that is not a \<open>str\<close>.\<close>

fun str_join :: "string \<Rightarrow> json list \<Rightarrow> error + string" where
  "str_join sep [] = Inr []"
| "str_join sep [JStr s] = Inr s"
| "str_join sep (JStr s # x # xs) =
     (case str_join sep (x # xs) of
        Inl e \<Rightarrow> Inl e
      | Inr rest \<Rightarrow> Inr (s @ sep @ rest))"
| "str_join sep (other # xs) = Inl TypeError"

text \<open>Decimal digits of a number, as \<open>str\<close> prints an \<open>int\<close>.\<close>

fun str_nat :: "nat \<Rightarrow> string" where
  "str_nat n = (if n < 10 then [''0123456789'' ! n] else str_nat (n div 10) @ [''0123456789'' ! (n mod 10)])"

declare str_nat.simps [simp del]

definition str_int :: "int \<Rightarrow> string" where
  "str_int i = (if i < 0 then CHR ''-'' # str_nat (nat (- i)) else str_nat (nat i))"

text \<open>
  The library functions whose output format no property below depends on are parameters
  of the model: \<open>repr\<close> of a list or dict, \<open>json.dumps\<close> with its default separators, and
  \<open>json.dumps\<close> with \<open>separators=(",", ":")\<close>. Each returns a \<open>str\<close> and never raises on a
  decoded JSON document.
\<close>

record runtime =
  py_repr :: "json \<Rightarrow> string"
  json_dumps :: "json \<Rightarrow> string"
  json_dumps_compact :: "json \<Rightarrow> string"

fun py_str :: "runtime \<Rightarrow> json \<Rightarrow> string" where
  "py_str rt (JStr s) = s"
| "py_str rt (JInt i) = str_int i"
| "py_str rt (JBool b) = (if b then ''True'' else ''False'')"
| "py_str rt JNull = ''None''"
| "py_str rt v = py_repr rt v"

subsection \<open>Row preparation\<close>

text \<open>
  One row of the \<open>players\<close> table, with the columns of the \<open>CREATE TABLE\<close> statement in
  their order. The same shape holds the 19-tuple of Python values that \<open>main\<close> appends to
  \<open>rows\<close> (cells of type \<open>json\<close>) and the stored row (cells of type \<open>sqlval\<close>).
\<close>

record 'v player_row =
  player_id :: 'v
  first_name :: 'v
  last_name :: 'v
  full_name :: 'v
  search_full_name :: 'v
  search_first_name :: 'v
  search_last_name :: 'v
  team :: 'v
  position :: 'v
  status :: 'v
  sport :: 'v
  number :: 'v
  age :: 'v
  depth_chart_position :: 'v
  depth_chart_order :: 'v
  years_exp :: 'v
  fantasy_positions_json :: 'v
  data_json :: 'v
  updated_at :: 'v

text \<open>Line 109: \<open>" ".join([x for x in [first, last] if x]) or p.get("full_name")\<close>.\<close>

definition full_name_of :: "(string \<times> json) list \<Rightarrow> error + json" where
  "full_name_of p =
     (let first = dict_get p ''first_name'';
          last = dict_get p ''last_name''
      in case str_join '' '' (filter truthy [first, last]) of
           Inl e \<Rightarrow> Inl e
         | Inr joined \<Rightarrow> Inr (py_or (JStr joined) (dict_get p ''full_name'')))"

text \<open>Line 112.\<close>

definition fantasy_positions_json_of :: "runtime \<Rightarrow> (string \<times> json) list \<Rightarrow> json" where
  "fantasy_positions_json_of rt p =
     (let fantasy_positions = dict_get p ''fantasy_positions''
      in if fantasy_positions \<noteq> JNull then JStr (json_dumps rt fantasy_positions) else JNull)"

text \<open>Line 115: \<open>str(p.get("player_id") or player_id)\<close>, the key of the row.\<close>

definition row_key :: "runtime \<Rightarrow> string \<Rightarrow> (string \<times> json) list \<Rightarrow> string" where
  "row_key rt key p = py_str rt (py_or (dict_get p ''player_id'') (JStr key))"

text \<open>
  The body of the loop of lines 106 to 140 for one item \<open>(player_id, p)\<close> of
  \<open>players_obj.items()\<close>. \<open>p.get\<close> raises \<open>AttributeError\<close> when \<open>p\<close> is not a dict.
\<close>

definition prepare_row :: "runtime \<Rightarrow> int \<Rightarrow> string \<Rightarrow> json \<Rightarrow> error + json player_row" where
  "prepare_row rt now key pv =
     (case pv of
        JObj p \<Rightarrow>
          (case full_name_of p of
             Inl e \<Rightarrow> Inl e
           | Inr fn \<Rightarrow>
               Inr \<lparr> player_id = JStr (row_key rt key p),
                     first_name = dict_get p ''first_name'',
                     last_name = dict_get p ''last_name'',
                     full_name = fn,
                     search_full_name = dict_get p ''search_full_name'',
                     search_first_name = dict_get p ''search_first_name'',
                     search_last_name = dict_get p ''search_last_name'',
                     team = dict_get p ''team'',
                     position = dict_get p ''position'',
                     status = dict_get p ''status'',
                     sport = dict_get p ''sport'',
                     number = dict_get p ''number'',
                     age = dict_get p ''age'',
                     depth_chart_position = dict_get p ''depth_chart_position'',
                     depth_chart_order = dict_get p ''depth_chart_order'',
                     years_exp = dict_get p ''years_exp'',
                     fantasy_positions_json = fantasy_positions_json_of rt p,
                     data_json = JStr (json_dumps_compact rt pv),
                     updated_at = JInt now \<rparr>)
      | _ \<Rightarrow> Inl AttributeError)"

fun prepare_items :: "runtime \<Rightarrow> int \<Rightarrow> (string \<times> json) list \<Rightarrow> error + json player_row list" where
  "prepare_items rt now [] = Inr []"
| "prepare_items rt now ((key, pv) # items) =
     (case prepare_row rt now key pv of
        Inl e \<Rightarrow> Inl e
      | Inr r \<Rightarrow>
          (case prepare_items rt now items of
             Inl e \<Rightarrow> Inl e
           | Inr rs \<Rightarrow> Inr (r # rs)))"

text \<open>\<open>players_obj.items()\<close> raises \<open>AttributeError\<close> when the document is not an object.\<close>

definition prepare_rows :: "runtime \<Rightarrow> int \<Rightarrow> json \<Rightarrow> error + json player_row list" where
  "prepare_rows rt now players_obj =
     (case players_obj of
        JObj items \<Rightarrow> prepare_items rt now items
      | _ \<Rightarrow> Inl AttributeError)"

subsection \<open>The store\<close>

text \<open>
  The values \<open>sqlite3\<close> binds as statement parameters: \<open>None\<close> as NULL, an \<open>int\<close> (a
  \<open>bool\<close> is one) as a 64-bit INTEGER, a \<open>str\<close> as TEXT. A list or a dict is not
  supported and raises; an \<open>int\<close> outside 64 bits raises \<open>OverflowError\<close>.
\<close>

datatype sqlval = SNull | SInt int | SText string

fun bind :: "json \<Rightarrow> error + sqlval" where
  "bind JNull = Inr SNull"
| "bind (JBool b) = Inr (SInt (if b then 1 else 0))"
| "bind (JInt i) = (if - (2 ^ 63) \<le> i \<and> i < 2 ^ 63 then Inr (SInt i) else Inl OverflowError)"
| "bind (JStr s) = Inr (SText s)"
| "bind (JList xs) = Inl ProgrammingError"
| "bind (JObj kvs) = Inl ProgrammingError"

definition sbind :: "error + 'a \<Rightarrow> ('a \<Rightarrow> error + 'b) \<Rightarrow> error + 'b" where
  "sbind m f = (case m of Inl e \<Rightarrow> Inl e | Inr x \<Rightarrow> f x)"

text \<open>The 19 parameters of one row are bound in their order; the first that fails raises.\<close>

definition bind_row :: "json player_row \<Rightarrow> error + sqlval player_row" where
  "bind_row r =
     sbind (bind (player_id r)) (\<lambda>c0.
     sbind (bind (first_name r)) (\<lambda>c1.
     sbind (bind (last_name r)) (\<lambda>c2.
     sbind (bind (full_name r)) (\<lambda>c3.
     sbind (bind (search_full_name r)) (\<lambda>c4.
     sbind (bind (search_first_name r)) (\<lambda>c5.
     sbind (bind (search_last_name r)) (\<lambda>c6.
     sbind (bind (team r)) (\<lambda>c7.
     sbind (bind (position r)) (\<lambda>c8.
     sbind (bind (status r)) (\<lambda>c9.
     sbind (bind (sport r)) (\<lambda>c10.
     sbind (bind (number r)) (\<lambda>c11.
     sbind (bind (age r)) (\<lambda>c12.
     sbind (bind (depth_chart_position r)) (\<lambda>c13.
     sbind (bind (depth_chart_order r)) (\<lambda>c14.
     sbind (bind (years_exp r)) (\<lambda>c15.
     sbind (bind (fantasy_positions_json r)) (\<lambda>c16.
     sbind (bind (data_json r)) (\<lambda>c17.
     sbind (bind (updated_at r)) (\<lambda>c18.
     Inr \<lparr> player_id = c0,
           first_name = c1,
           last_name = c2,
           full_name = c3,
           search_full_name = c4,
           search_first_name = c5,
           search_last_name = c6,
           team = c7,
           position = c8,
           status = c9,
           sport = c10,
           number = c11,
           age = c12,
           depth_chart_position = c13,
           depth_chart_order = c14,
           years_exp = c15,
           fantasy_positions_json = c16,
           data_json = c17,
           updated_at = c18 \<rparr>)))))))))))))))))))"

text \<open>
  The \<open>players\<close> table is the list of its rows in insertion order; the \<open>meta\<close> table maps
  its primary key to the value. The table keeps the bound values of a row: the conversion
  SQLite applies to a value for the declared type of its column is a function of that value
  alone, maps NULL to NULL and nothing else to NULL, keeps a TEXT value in a TEXT column and
  an INTEGER value in an INTEGER column, and is left out.
\<close>

type_synonym players_table = "sqlval player_row list"

record db =
  players :: players_table
  meta :: "string \<rightharpoonup> string"

text \<open>
  \<open>INSERT INTO players ... ON CONFLICT(player_id) DO UPDATE SET ...\<close> for one row: the row
  whose key equals the new key has the 18 other columns overwritten with the new values;
  with no such row the new row is added. NULL keys never conflict.
\<close>

definition do_update :: "sqlval player_row \<Rightarrow> sqlval player_row \<Rightarrow> sqlval player_row" where
  "do_update old excluded =
     old\<lparr> first_name := first_name excluded,
          last_name := last_name excluded,
          full_name := full_name excluded,
          search_full_name := search_full_name excluded,
          search_first_name := search_first_name excluded,
          search_last_name := search_last_name excluded,
          team := team excluded,
          position := position excluded,
          status := status excluded,
          sport := sport excluded,
          number := number excluded,
          age := age excluded,
          depth_chart_position := depth_chart_position excluded,
          depth_chart_order := depth_chart_order excluded,
          years_exp := years_exp excluded,
          fantasy_positions_json := fantasy_positions_json excluded,
          data_json := data_json excluded,
          updated_at := updated_at excluded \<rparr>"

fun upsert :: "sqlval player_row \<Rightarrow> players_table \<Rightarrow> players_table" where
  "upsert r [] = [r]"
| "upsert r (x # xs) =
     (if player_id r \<noteq> SNull \<and> player_id x = player_id r
      then do_update x r # xs
      else x # upsert r xs)"

text \<open>
  A connection: the committed database, the state of the open transaction if there is one,
  and the storage engine's fault: \<open>Some k\<close> when the engine completes \<open>k\<close> more statements
  and then fails every statement (disk full, I/O error), \<open>None\<close> when it never fails.
  Every operation returns its result with the connection after it, so that the handler of
  an exception sees what was done before the raise.
\<close>

record conn =
  disk :: db
  tx :: "db option"
  fault :: "nat option"

type_synonym 'a action = "conn \<Rightarrow> (error + 'a) \<times> conn"

definition connect :: "db \<Rightarrow> nat option \<Rightarrow> conn" where
  "connect d f = \<lparr> disk = d, tx = None, fault = f \<rparr>"

definition storage_op :: "unit action" where
  "storage_op c =
     (case fault c of
        None \<Rightarrow> (Inr (), c)
      | Some 0 \<Rightarrow> (Inl OperationalError, c)
      | Some (Suc k) \<Rightarrow> (Inr (), c\<lparr> fault := Some k \<rparr>))"

text \<open>A schema statement or pragma (\<open>CREATE ... IF NOT EXISTS\<close>): no row changes.\<close>

definition execute_schema :: "string \<Rightarrow> unit action" where
  "execute_schema stmt c = storage_op c"

text \<open>\<open>conn.execute("BEGIN;")\<close>: fails inside an open transaction.\<close>

definition begin_tx :: "unit action" where
  "begin_tx c =
     (case tx c of
        Some d \<Rightarrow> (Inl OperationalError, c)
      | None \<Rightarrow>
          (case storage_op c of
             (Inl e, c') \<Rightarrow> (Inl e, c')
           | (Inr u, c') \<Rightarrow> (Inr (), c'\<lparr> tx := Some (disk c') \<rparr>)))"

text \<open>
  A data-changing statement: it runs in the open transaction (the module opens one
  implicitly when there is none), and a statement that fails leaves no change of its own.
\<close>

definition execute_write :: "(db \<Rightarrow> db) \<Rightarrow> unit action" where
  "execute_write f c =
     (case storage_op c of
        (Inl e, c') \<Rightarrow> (Inl e, c')
      | (Inr u, c') \<Rightarrow>
          (Inr (), c'\<lparr> tx := Some (f (case tx c' of Some d \<Rightarrow> d | None \<Rightarrow> disk c')) \<rparr>))"

definition commit :: "unit action" where
  "commit c =
     (case tx c of
        None \<Rightarrow> (Inr (), c)
      | Some d \<Rightarrow>
          (case storage_op c of
             (Inl e, c') \<Rightarrow> (Inl e, c')
           | (Inr u, c') \<Rightarrow> (Inr (), c'\<lparr> disk := d, tx := None \<rparr>)))"

definition rollback :: "conn \<Rightarrow> conn" where
  "rollback c = c\<lparr> tx := None \<rparr>"

text \<open>\<open>conn.close()\<close> discards an open transaction; what remains is the committed database.\<close>

definition close :: "conn \<Rightarrow> db" where
  "close c = disk c"

fun run_all :: "unit action list \<Rightarrow> unit action" where
  "run_all [] c = (Inr (), c)"
| "run_all (a # as) c =
     (case a c of
        (Inl e, c') \<Rightarrow> (Inl e, c')
      | (Inr u, c') \<Rightarrow> run_all as c')"

subsection \<open>The functions of the script\<close>

definition SLEEPER_PLAYERS_URL :: string where
  "SLEEPER_PLAYERS_URL = ''https://api.sleeper.app/v1/players/nfl''"

definition ensure_db :: "unit action" where
  "ensure_db =
     run_all
       [execute_schema ''PRAGMA journal_mode=WAL;'',
        execute_schema ''PRAGMA foreign_keys=ON;'',
        execute_schema ''CREATE TABLE IF NOT EXISTS meta'',
        execute_schema ''CREATE TABLE IF NOT EXISTS players'',
        execute_schema ''CREATE INDEX IF NOT EXISTS idx_players_team'',
        execute_schema ''CREATE INDEX IF NOT EXISTS idx_players_position'',
        execute_schema ''CREATE INDEX IF NOT EXISTS idx_players_status'',
        execute_schema ''CREATE INDEX IF NOT EXISTS idx_players_search_full_name'']"

definition set_meta :: "string \<Rightarrow> string \<Rightarrow> unit action" where
  "set_meta k v = execute_write (\<lambda>d. d\<lparr> meta := (meta d)(k \<mapsto> v) \<rparr>)"

text \<open>\<open>formatted_time\<close> is \<open>time.ctime\<close> of the clock at the call, an input of the model.\<close>

definition mark_cached :: "string \<Rightarrow> nat \<Rightarrow> unit action" where
  "mark_cached formatted_time count =
     run_all
       [set_meta ''players_cached'' ''1'',
        set_meta ''players_cached_at'' formatted_time,
        set_meta ''players_count'' (str_nat count)]"

text \<open>
  Each of the three calls of \<open>fetch_players\<close> may raise: the request, \<open>raise_for_status\<close>
  (for a status outside 200 to 299) and the decoding of the body.
\<close>

definition fetch_players :: "upstream \<Rightarrow> error + json" where
  "fetch_players up =
     (case up (SLEEPER_PLAYERS_URL, None) of
        Inl e \<Rightarrow> Inl e
      | Inr r \<Rightarrow>
          if 200 \<le> status_code r \<and> status_code r < 300
          then (case resp_json r of
                  None \<Rightarrow> Inl JSONDecodeError
                | Some j \<Rightarrow> Inr j)
          else Inl (HTTPStatusError (status_code r)))"

definition execute_upsert :: "json player_row \<Rightarrow> unit action" where
  "execute_upsert r c =
     (case bind_row r of
        Inl e \<Rightarrow> (Inl e, c)
      | Inr s \<Rightarrow> execute_write (\<lambda>d. d\<lparr> players := upsert s (players d) \<rparr>) c)"

definition executemany :: "json player_row list \<Rightarrow> unit action" where
  "executemany rows = run_all (map execute_upsert rows)"

text \<open>
  What one run reads from outside: the upstream, the clock at line 102
  (\<open>int(time.time())\<close>), the formatted clock inside \<open>mark_cached\<close>, and the fault of the
  storage engine.
\<close>

record env =
  net :: upstream
  clock :: int
  clock_text :: string
  storage_fault :: "nat option"

text \<open>The body of the \<open>try\<close> block of \<open>main\<close>; the result is \<open>len(rows)\<close>.\<close>

definition main_try :: "runtime \<Rightarrow> env \<Rightarrow> nat action" where
  "main_try rt ev c0 =
     (case ensure_db c0 of
        (Inl e, c1) \<Rightarrow> (Inl e, c1)
      | (Inr u, c1) \<Rightarrow>
     (case fetch_players (net ev) of
        Inl e \<Rightarrow> (Inl e, c1)
      | Inr players_obj \<Rightarrow>
     (case prepare_rows rt (clock ev) players_obj of
        Inl e \<Rightarrow> (Inl e, c1)
      | Inr rows \<Rightarrow>
     (case begin_tx c1 of
        (Inl e, c2) \<Rightarrow> (Inl e, c2)
      | (Inr u, c2) \<Rightarrow>
     (case executemany rows c2 of
        (Inl e, c3) \<Rightarrow> (Inl e, c3)
      | (Inr u, c3) \<Rightarrow>
     (case mark_cached (clock_text ev) (length rows) c3 of
        (Inl e, c4) \<Rightarrow> (Inl e, c4)
      | (Inr u, c4) \<Rightarrow>
     (case commit c4 of
        (Inl e, c5) \<Rightarrow> (Inl e, c5)
      | (Inr u, c5) \<Rightarrow> (Inr (length rows), c5))))))))"

text \<open>
  \<open>main\<close>: the exception handler rolls back and re-raises, and \<open>finally\<close> closes the
  connection. The result is the raised exception or the number of rows, with the database
  the run leaves behind. The connection is opened on the database as it is before the run;
  the two calls of \<open>print\<close> are left out.
\<close>

definition main :: "runtime \<Rightarrow> env \<Rightarrow> db \<Rightarrow> (error + nat) \<times> db" where
  "main rt ev d0 =
     (case main_try rt ev (connect d0 (storage_fault ev)) of
        (Inl e, c) \<Rightarrow> (Inl e, close (rollback c))
      | (Inr n, c) \<Rightarrow> (Inr n, close c))"


section \<open>Notions used in the statements\<close>

text \<open>
  The definitions of this section are not part of the two programs; the theorems below are
  stated with them.
\<close>

text \<open>
  A path parameter a route template can match: non-empty and without \<open>/\<close>.
\<close>

definition valid_param :: "string \<Rightarrow> bool" where
  "valid_param v = (v \<noteq> [] \<and> CHR ''/'' \<notin> set v)"

text \<open>The stored form of a list of prepared rows, when every parameter can be bound.\<close>

fun bind_rows :: "json player_row list \<Rightarrow> error + sqlval player_row list" where
  "bind_rows [] = Inr []"
| "bind_rows (r # rs) =
     (case bind_row r of
        Inl e \<Rightarrow> Inl e
      | Inr s \<Rightarrow>
          (case bind_rows rs of
             Inl e \<Rightarrow> Inl e
           | Inr ss \<Rightarrow> Inr (s # ss)))"

text \<open>
  The rows one run sends to the store, in the order of the fetched mapping: the fetch, the
  preparation of every row and the binding of its parameters, or the first exception among
  them.
\<close>

definition run_rows :: "runtime \<Rightarrow> env \<Rightarrow> error + sqlval player_row list" where
  "run_rows rt ev =
     (case fetch_players (net ev) of
        Inl e \<Rightarrow> Inl e
      | Inr players_obj \<Rightarrow>
          (case prepare_rows rt (clock ev) players_obj of
             Inl e \<Rightarrow> Inl e
           | Inr rows \<Rightarrow> bind_rows rows))"

text \<open>
  The database after a complete load of the rows \<open>srows\<close> into \<open>d\<close>: every row upserted in
  order, and the three meta keys written (\<open>t\<close> is the formatted time).
\<close>

definition loaded :: "sqlval player_row list \<Rightarrow> string \<Rightarrow> db \<Rightarrow> db" where
  "loaded srows t d =
     \<lparr> players = fold upsert srows (players d),
       meta = (meta d)(''players_cached'' \<mapsto> ''1'', ''players_cached_at'' \<mapsto> t,
                       ''players_count'' \<mapsto> str_nat (length srows)) \<rparr>"

text \<open>The storage engine completes at least \<open>k\<close> more statements.\<close>

definition enough :: "nat \<Rightarrow> nat option \<Rightarrow> bool" where
  "enough k f = (case f of None \<Rightarrow> True | Some m \<Rightarrow> k \<le> m)"

text \<open>
  The full name as the specification words it: the two names joined by a space when both
  are present, the upstream \<open>full_name\<close> field otherwise.
\<close>

definition full_name_claimed :: "(string \<times> json) list \<Rightarrow> json" where
  "full_name_claimed p =
     (case (map_of p ''first_name'', map_of p ''last_name'') of
        (Some (JStr a), Some (JStr b)) \<Rightarrow> JStr (a @ '' '' @ b)
      | _ \<Rightarrow> dict_get p ''full_name'')"

section \<open>Notions used in the proofs\<close>

text \<open>The number of \<open>/\<close> in a path, and in the literal text of a template.\<close>

definition slashes :: "string \<Rightarrow> nat" where
  "slashes s = length (filter (\<lambda>c. c = CHR ''/'') s)"

fun lit_slashes :: "piece list \<Rightarrow> nat" where
  "lit_slashes [] = 0"
| "lit_slashes (Lit l # ps) = slashes l + lit_slashes ps"
| "lit_slashes (Param n # ps) = lit_slashes ps"

text \<open>The fault of the storage engine after \<open>k\<close> completed statements.\<close>

definition spend :: "nat \<Rightarrow> nat option \<Rightarrow> nat option" where
  "spend k f = map_option (\<lambda>m. m - k) f"

text \<open>The change one upsert statement makes, and the changes \<open>mark_cached\<close> makes.\<close>

definition ups :: "sqlval player_row \<Rightarrow> db \<Rightarrow> db" where
  "ups s d = d\<lparr> players := upsert s (players d) \<rparr>"

definition meta_writes :: "string \<Rightarrow> nat \<Rightarrow> (db \<Rightarrow> db) list" where
  "meta_writes t n =
     [\<lambda>d. d\<lparr> meta := (meta d)(''players_cached'' \<mapsto> ''1'') \<rparr>,
      \<lambda>d. d\<lparr> meta := (meta d)(''players_cached_at'' \<mapsto> t) \<rparr>,
      \<lambda>d. d\<lparr> meta := (meta d)(''players_count'' \<mapsto> str_nat n) \<rparr>]"

text \<open>
  The row of a table with a given key, and the last row of a list of written rows with a
  given key.
\<close>

definition row_of :: "sqlval \<Rightarrow> players_table \<Rightarrow> sqlval player_row option" where
  "row_of k t = find (\<lambda>x. player_id x = k) t"

definition latest :: "sqlval \<Rightarrow> sqlval player_row list \<Rightarrow> sqlval player_row option" where
  "latest k srows = find (\<lambda>s. player_id s = k) (rev srows)"

text \<open>The stored row \<open>s\<close> comes from the item \<open>(key, p)\<close> of the fetched mapping.\<close>

definition stored :: "runtime \<Rightarrow> int \<Rightarrow> string \<times> json \<Rightarrow> sqlval player_row \<Rightarrow> bool" where
  "stored rt now item s =
     (\<exists>r. prepare_row rt now (fst item) (snd item) = Inr r \<and> bind_row r = Inr s)"

section \<open>Example inputs\<close>

text \<open>
  A runtime whose serialisers return a fixed text; the theorems hold for every runtime, the
  examples are evaluated with this one.
\<close>

definition sample_runtime :: runtime where
  "sample_runtime =
     \<lparr> py_repr = (\<lambda>v. ''<repr>''), json_dumps = (\<lambda>v. ''<json>''),
       json_dumps_compact = (\<lambda>v. ''<json>'') \<rparr>"

text \<open>Upstream records, documents, environments and databases of the examples.\<close>

definition tom_brady :: "(string \<times> json) list" where
  "tom_brady = [(''player_id'', JStr ''1''), (''first_name'', JStr ''Tom''),
                (''last_name'', JStr ''Brady'')]"

definition only_full_name :: "(string \<times> json) list" where
  "only_full_name = [(''full_name'', JStr ''X Y'')]"

definition tom_only :: "(string \<times> json) list" where
  "tom_only = [(''first_name'', JStr ''Tom''), (''full_name'', JStr ''X Y'')]"

definition brady_only :: "(string \<times> json) list" where
  "brady_only = [(''last_name'', JStr ''Brady''), (''full_name'', JStr ''X Y'')]"

definition sample_players :: json where
  "sample_players = JObj [(''1'', JObj tom_brady), (''2'', JObj only_full_name)]"

definition colliding_players :: json where
  "colliding_players =
     JObj [(''a'', JObj [(''player_id'', JStr ''7''), (''first_name'', JStr ''First'')]),
           (''b'', JObj [(''player_id'', JInt 7), (''first_name'', JStr ''Second'')]),
           (''c'', JObj [])]"

definition sample_env :: "json \<Rightarrow> int \<Rightarrow> nat option \<Rightarrow> env" where
  "sample_env doc now f =
     \<lparr> net = (\<lambda>q. Inr \<lparr> status_code = 200, resp_text = [], resp_json = Some doc \<rparr>),
       clock = now, clock_text = ''Tue Nov  3 14:46:00 2026'', storage_fault = f \<rparr>"

definition blank_row :: "string \<Rightarrow> int \<Rightarrow> sqlval player_row" where
  "blank_row k now =
     \<lparr> player_id = SText k, first_name = SNull, last_name = SNull, full_name = SNull,
       search_full_name = SNull, search_first_name = SNull, search_last_name = SNull,
       team = SNull, position = SNull, status = SNull, sport = SNull, number = SNull,
       age = SNull, depth_chart_position = SNull, depth_chart_order = SNull,
       years_exp = SNull, fantasy_positions_json = SNull, data_json = SText ''<json>'',
       updated_at = SInt now \<rparr>"

definition sample_rows :: "int \<Rightarrow> sqlval player_row list" where
  "sample_rows now =
     [(blank_row ''1'' now)\<lparr> first_name := SText ''Tom'', last_name := SText ''Brady'',
                              full_name := SText ''Tom Brady'' \<rparr>,
      (blank_row ''2'' now)\<lparr> full_name := SText ''X Y'' \<rparr>]"

definition colliding_rows :: "int \<Rightarrow> sqlval player_row list" where
  "colliding_rows now =
     [(blank_row ''7'' now)\<lparr> first_name := SText ''First'', full_name := SText ''First'' \<rparr>,
      (blank_row ''7'' now)\<lparr> first_name := SText ''Second'', full_name := SText ''Second'' \<rparr>,
      blank_row ''c'' now]"

definition empty_db :: db where
  "empty_db = \<lparr> players = [], meta = Map.empty \<rparr>"

definition old_db :: db where
  "old_db = \<lparr> players = [blank_row ''9'' 50, blank_row ''1'' 999], meta = Map.empty \<rparr>"

section \<open>The proxy: route matching\<close>

lemma strip_prefix_append: "strip_prefix l (l @ s) = Some s"
  by (induction l) auto

lemma strip_prefix_Some: "strip_prefix l s = Some r \<Longrightarrow> s = l @ r"
  by (induction l s rule: strip_prefix.induct) (auto split: if_splits)

lemma slashes_append: "slashes (a @ b) = slashes a + slashes b"
  by (simp add: slashes_def)

lemma slashes_takeWhile: "slashes (takeWhile (\<lambda>c. c \<noteq> CHR ''/'') s) = 0"
  by (induction s) (auto simp: slashes_def)

lemma slashes_valid: "valid_param v \<Longrightarrow> slashes v = 0"
  by (auto simp: slashes_def valid_param_def filter_empty_conv)

lemma match_path_slashes: "match_path t p = Some bs \<Longrightarrow> slashes p = lit_slashes t"
proof (induction t p arbitrary: bs rule: match_path.induct)
  case (1 s)
  then show ?case by (simp add: slashes_def split: if_splits)
next
  case (2 l ps s)
  then show ?case
    by (auto split: option.splits dest!: strip_prefix_Some simp: slashes_append)
next
  case (3 n ps s)
  let ?v = "takeWhile (\<lambda>c. c \<noteq> CHR ''/'') s"
  let ?r = "dropWhile (\<lambda>c. c \<noteq> CHR ''/'') s"
  from 3 obtain bs' where m: "match_path ps ?r = Some bs'" and ne: "?v \<noteq> []"
    by (auto simp: Let_def split: if_splits option.splits)
  have "slashes s = slashes (?v @ ?r)" by simp
  also have "\<dots> = slashes ?r" by (simp only: slashes_append slashes_takeWhile)
  also have "\<dots> = lit_slashes ps" using 3(1)[OF refl ne m] .
  finally show ?case by simp
qed

lemma match_path_Param:
  assumes "valid_param v" and "r = [] \<or> hd r = CHR ''/''"
  shows "match_path (Param n # ps) (v @ r) =
           (case match_path ps r of None \<Rightarrow> None | Some bs \<Rightarrow> Some ((n, v) # bs))"
proof -
  have a: "\<forall>c\<in>set v. c \<noteq> CHR ''/''" using assms(1) by (auto simp: valid_param_def)
  have t: "takeWhile (\<lambda>c. c \<noteq> CHR ''/'') (v @ r) = v"
    using a assms(2) by (cases r) (auto simp: takeWhile_append2 takeWhile_eq_all_conv)
  have d: "dropWhile (\<lambda>c. c \<noteq> CHR ''/'') (v @ r) = r"
    using a assms(2) by (cases r) (auto simp: dropWhile_append2 dropWhile_eq_Nil_conv)
  show ?thesis using assms(1) by (simp add: t d valid_param_def)
qed

lemma no_match:
  "slashes p \<noteq> lit_slashes t \<Longrightarrow> match_path t p = None"
  using match_path_slashes by (cases "match_path t p") auto

lemma route_user: "valid_param u \<Longrightarrow> app_get up (''/sleeper/user/'' @ u) = get_user up u"
  using match_path_Param[of u "[]" "''user_id''" "[]"]
  by (simp add: app_get_def routes_def arg_def valid_param_def)

lemma user_template_miss:
  "slashes p \<noteq> 3 \<Longrightarrow> match_path [Lit ''/sleeper/user/'', Param ''user_id''] p = None"
  by (rule no_match) (simp add: slashes_def)

lemma leagues_template_miss:
  "slashes p \<noteq> 5 \<Longrightarrow>
   match_path [Lit ''/sleeper/'', Param ''user_id'', Lit ''/leagues/'', Param ''sport'', Lit ''/'',
        Param ''season''] p = None"
  by (rule no_match) (simp add: slashes_def)

lemma league_template_miss:
  "slashes p \<noteq> 3 \<Longrightarrow> match_path [Lit ''/sleeper/league/'', Param ''league_id''] p = None"
  by (rule no_match) (simp add: slashes_def)

lemma slashes_Cons: "slashes (c # s) = (if c = CHR ''/'' then 1 else 0) + slashes s"
  by (simp add: slashes_def)

lemma slashes_Nil: "slashes [] = 0"
  by (simp add: slashes_def)

lemma route_league: "valid_param u \<Longrightarrow> app_get up (''/sleeper/league/'' @ u) = get_league up u"
proof -
  assume v: "valid_param u"
  have a: "match_path [Lit ''/sleeper/'', Param ''user_id'', Lit ''/leagues/'', Param ''sport'', Lit ''/'',
        Param ''season''] (''/sleeper/league/'' @ u) = None"
    by (rule leagues_template_miss) (simp add: slashes_Cons slashes_valid[OF v])
  show ?thesis
    using a match_path_Param[of u "[]" "''league_id''" "[]"] v
    by (simp add: app_get_def routes_def arg_def)
qed

lemma route_league_rosters: "valid_param u \<Longrightarrow> app_get up (''/sleeper/league/'' @ u @ ''/rosters'') = get_league_rosters up u"
proof -
  assume v: "valid_param u"
  have a: "match_path [Lit ''/sleeper/'', Param ''user_id'', Lit ''/leagues/'', Param ''sport'', Lit ''/'',
        Param ''season''] (''/sleeper/league/'' @ u @ ''/rosters'') = None"
    by (rule leagues_template_miss) (simp add: slashes_Cons slashes_Nil slashes_append slashes_valid[OF v])
  have b: "match_path [Lit ''/sleeper/league/'', Param ''league_id''] (''/sleeper/league/'' @ u @ ''/rosters'') = None"
    by (rule league_template_miss) (simp add: slashes_Cons slashes_Nil slashes_append slashes_valid[OF v])
  show ?thesis
    using a b match_path_Param[of u "''/rosters''" "''league_id''" "[Lit ''/rosters'']"] v
    by (simp add: app_get_def routes_def arg_def)
qed

lemma route_user_leagues: "valid_param u \<Longrightarrow> valid_param sp \<Longrightarrow> valid_param se \<Longrightarrow>
   app_get up (''/sleeper/'' @ u @ ''/leagues/'' @ sp @ ''/'' @ se) = get_user_leagues up u se sp"
proof -
  assume v: "valid_param u" "valid_param sp" "valid_param se"
  let ?p = "''/sleeper/'' @ u @ ''/leagues/'' @ sp @ ''/'' @ se"
  have a: "match_path [Lit ''/sleeper/user/'', Param ''user_id''] ?p = None"
    by (rule user_template_miss) (simp add: slashes_Cons slashes_Nil slashes_append slashes_valid v)
  have c: "match_path [Param ''season''] se = Some [(''season'', se)]"
    using match_path_Param[of se "[]" "''season''" "[]"] v by simp
  have d: "match_path [Param ''sport'', Lit ''/'', Param ''season''] (sp @ ''/'' @ se)
             = Some [(''sport'', sp), (''season'', se)]"
    using match_path_Param[of sp "''/'' @ se" "''sport''" "[Lit ''/'', Param ''season'']"] v c by simp
  have e: "match_path [Param ''user_id'', Lit ''/leagues/'', Param ''sport'', Lit ''/'', Param ''season'']
              (u @ ''/leagues/'' @ sp @ ''/'' @ se)
             = Some [(''user_id'', u), (''sport'', sp), (''season'', se)]"
    using match_path_Param[of u "''/leagues/'' @ sp @ ''/'' @ se" "''user_id''"
        "[Lit ''/leagues/'', Param ''sport'', Lit ''/'', Param ''season'']"] v d by simp
  show ?thesis
    using a e by (simp add: app_get_def routes_def arg_def)
qed

lemma route_root: "app_get up ''/'' = root"
  by (simp add: app_get_def routes_def)

lemma app_get_cases:
  "app_get up p = root \<or> app_get up p = (Inl (HTTPException 404 ''Not Found''), []) \<or>
   (\<exists>path. app_get up p = sleeper_get up path None)"
  unfolding app_get_def routes_def dispatch.simps
    get_user_def get_user_leagues_def get_league_def get_league_rosters_def
  by (simp split: option.splits) blast

lemma sleeper_get_requests: "snd (sleeper_get up path params) = [(SLEEPER_BASE_URL @ path, params)]"
  by (simp add: sleeper_get_def Let_def)

section \<open>The loader: statements, transactions and the run as a whole\<close>

lemma storage_op_eq:
  "storage_op c = (if enough 1 (fault c) then (Inr (), c\<lparr> fault := spend 1 (fault c) \<rparr>)
                   else (Inl OperationalError, c))"
  by (auto simp: storage_op_def enough_def spend_def split: option.splits nat.splits)

lemma enough_0 [simp]: "enough 0 f"
  by (simp add: enough_def split: option.splits)

lemma spend_0 [simp]: "spend 0 f = f"
  by (simp add: spend_def option.map_ident)

lemma enough_Suc: "enough (Suc k) f \<longleftrightarrow> enough 1 f \<and> enough k (spend 1 f)"
  by (auto simp: enough_def spend_def split: option.splits)

lemma spend_Suc: "spend (Suc k) f = spend k (spend 1 f)"
  by (cases f) (auto simp: spend_def)

lemma execute_write_eq:
  "execute_write f c =
     (if enough 1 (fault c)
      then (Inr (), c\<lparr> fault := spend 1 (fault c),
                       tx := Some (f (case tx c of Some d \<Rightarrow> d | None \<Rightarrow> disk c)) \<rparr>)
      else (Inl OperationalError, c))"
  by (cases "tx c") (simp_all add: execute_write_def storage_op_eq)

lemma run_writes_ok:
  "tx c = Some d \<Longrightarrow> enough (length fs) (fault c) \<Longrightarrow>
   run_all (map execute_write fs) c =
     (Inr (), c\<lparr> fault := spend (length fs) (fault c), tx := Some (fold (\<lambda>f. f) fs d) \<rparr>)"
proof (induction fs arbitrary: c d)
  case Nil
  then show ?case by simp
next
  case (Cons f fs)
  let ?c = "c\<lparr> fault := spend 1 (fault c), tx := Some (f d) \<rparr>"
  from Cons.prems(2) have e1: "enough 1 (fault c)" and e2: "enough (length fs) (fault ?c)"
    by (simp_all add: enough_Suc del: One_nat_def)
  have "tx ?c = Some (f d)" by simp
  from Cons.IH[OF this e2] e1 Cons.prems(1) show ?case
    by (simp add: execute_write_eq spend_Suc del: One_nat_def)
qed

lemma run_writes_fail:
  "\<not> enough (length fs) (fault c) \<Longrightarrow>
   \<exists>c'. run_all (map execute_write fs) c = (Inl OperationalError, c') \<and> disk c' = disk c"
proof (induction fs arbitrary: c)
  case Nil
  then show ?case by simp
next
  case (Cons f fs)
  show ?case
  proof (cases "enough 1 (fault c)")
    case True
    let ?c = "c\<lparr> fault := spend 1 (fault c), tx := Some (f (case tx c of Some d \<Rightarrow> d | None \<Rightarrow> disk c)) \<rparr>"
    from Cons.prems True have "\<not> enough (length fs) (fault ?c)"
      by (simp add: enough_Suc del: One_nat_def)
    from Cons.IH[OF this] True show ?thesis
      by (auto simp add: execute_write_eq simp del: One_nat_def)
  next
    case False
    then show ?thesis by (simp add: execute_write_eq)
  qed
qed

lemma ensure_db_eq:
  "ensure_db c =
     (if enough 8 (fault c) then (Inr (), c\<lparr> fault := spend 8 (fault c) \<rparr>)
      else (Inl OperationalError, c\<lparr> fault := Some 0 \<rparr>))"
  apply (cases "fault c")
   apply (simp add: ensure_db_def execute_schema_def storage_op_def enough_def spend_def)
  apply (simp add: ensure_db_def execute_schema_def storage_op_def enough_def spend_def split: nat.splits)
  done

lemma ups_fun: "(\<lambda>d. d\<lparr> players := upsert s (players d) \<rparr>) = ups s"
  by (rule ext) (simp add: ups_def)

lemma execute_upsert_bound: "bind_row r = Inr s \<Longrightarrow> execute_upsert r = execute_write (ups s)"
  by (rule ext) (simp add: execute_upsert_def ups_fun)

lemma map_execute_upsert:
  "bind_rows rows = Inr srows \<Longrightarrow> map execute_upsert rows = map execute_write (map ups srows)"
  by (induction rows arbitrary: srows) (auto split: sum.splits simp: execute_upsert_bound)

lemma length_bind_rows: "bind_rows rows = Inr srows \<Longrightarrow> length srows = length rows"
  by (induction rows arbitrary: srows) (auto split: sum.splits)

lemma fold_ups: "fold (\<lambda>f. f) (map ups srows) d = d\<lparr> players := fold upsert srows (players d) \<rparr>"
  by (induction srows arbitrary: d) (simp_all add: ups_def)

lemma disk_storage_op: "disk (snd (storage_op c)) = disk c"
  by (simp add: storage_op_eq)











lemma enough_add: "enough (a + b) f \<longleftrightarrow> enough a f \<and> enough b (spend a f)"
  by (cases f) (auto simp: enough_def spend_def)

lemma spend_add: "spend b (spend a f) = spend (a + b) f"
  by (cases f) (auto simp: spend_def)

lemma run_writes_Inr:
  assumes "run_all (map execute_write fs) c = (Inr u, c')" and "tx c = Some d"
  shows "enough (length fs) (fault c) \<and>
         c' = c\<lparr> fault := spend (length fs) (fault c), tx := Some (fold (\<lambda>f. f) fs d) \<rparr>"
proof (cases "enough (length fs) (fault c)")
  case True
  from run_writes_ok[OF assms(2) True] assms(1) True show ?thesis by simp
next
  case False
  from run_writes_fail[OF False] assms(1) show ?thesis by auto
qed

lemma executemany_bind_fail:
  "bind_rows rows = Inl e \<Longrightarrow> \<exists>e' c'. executemany rows c = (Inl e', c')"
proof (induction rows arbitrary: c)
  case Nil
  then show ?case by simp
next
  case (Cons r rows)
  show ?case
  proof (cases "bind_row r")
    case (Inl a)
    then show ?thesis by (simp add: executemany_def execute_upsert_def)
  next
    case (Inr s)
    with Cons.prems have "bind_rows rows = Inl e" by (simp split: sum.splits)
    from Cons.IH[OF this] show ?thesis
      by (cases "execute_upsert r c") (auto simp: executemany_def split: sum.splits)
  qed
qed

lemma executemany_ok:
  assumes "bind_rows rows = Inr srows" and "tx c = Some d" and "enough (length srows) (fault c)"
  shows "executemany rows c =
           (Inr (), c\<lparr> fault := spend (length srows) (fault c),
                        tx := Some (d\<lparr> players := fold upsert srows (players d) \<rparr>) \<rparr>)"
  using run_writes_ok[of c d "map ups srows"] assms
  by (simp add: executemany_def map_execute_upsert fold_ups)

lemma executemany_Inr:
  assumes "executemany rows c = (Inr u, c')" and "tx c = Some d"
  shows "\<exists>srows. bind_rows rows = Inr srows \<and> enough (length srows) (fault c) \<and>
           c' = c\<lparr> fault := spend (length srows) (fault c),
                   tx := Some (d\<lparr> players := fold upsert srows (players d) \<rparr>) \<rparr>"
proof (cases "bind_rows rows")
  case (Inl e)
  from executemany_bind_fail[OF this, of c] assms(1) show ?thesis by auto
next
  case (Inr srows)
  from assms(1) have "run_all (map execute_write (map ups srows)) c = (Inr u, c')"
    by (simp add: executemany_def map_execute_upsert[OF Inr])
  from run_writes_Inr[OF this assms(2)] Inr show ?thesis by (simp add: fold_ups)
qed

lemma mark_cached_writes: "mark_cached t n = run_all (map execute_write (meta_writes t n))"
  by (simp add: mark_cached_def set_meta_def meta_writes_def)

lemma fold_meta_writes:
  "fold (\<lambda>f. f) (meta_writes t n) d =
     d\<lparr> meta := (meta d)(''players_cached'' \<mapsto> ''1'', ''players_cached_at'' \<mapsto> t,
                          ''players_count'' \<mapsto> str_nat n) \<rparr>"
  by (simp add: meta_writes_def)

lemma length_meta_writes: "length (meta_writes t n) = 3"
  by (simp add: meta_writes_def)

lemma mark_cached_ok:
  assumes "tx c = Some d" and "enough 3 (fault c)"
  shows "mark_cached t n c =
           (Inr (), c\<lparr> fault := spend 3 (fault c),
                        tx := Some (d\<lparr> meta := (meta d)(''players_cached'' \<mapsto> ''1'',
                                  ''players_cached_at'' \<mapsto> t, ''players_count'' \<mapsto> str_nat n) \<rparr>) \<rparr>)"
  using run_writes_ok[of c d "meta_writes t n"] assms
  by (simp add: mark_cached_writes fold_meta_writes length_meta_writes)

lemma mark_cached_Inr:
  assumes "mark_cached t n c = (Inr u, c')" and "tx c = Some d"
  shows "enough 3 (fault c) \<and>
         c' = c\<lparr> fault := spend 3 (fault c),
                 tx := Some (d\<lparr> meta := (meta d)(''players_cached'' \<mapsto> ''1'',
                                  ''players_cached_at'' \<mapsto> t, ''players_count'' \<mapsto> str_nat n) \<rparr>) \<rparr>"
  using run_writes_Inr[of "meta_writes t n" c u c' d] assms
  by (simp add: mark_cached_writes fold_meta_writes length_meta_writes)

lemma ensure_db_Inr:
  "ensure_db c = (Inr u, c') \<Longrightarrow> enough 8 (fault c) \<and> c' = c\<lparr> fault := spend 8 (fault c) \<rparr>"
  by (simp add: ensure_db_eq split: if_splits)

lemma begin_tx_Inr:
  "begin_tx c = (Inr u, c') \<Longrightarrow>
     tx c = None \<and> enough 1 (fault c) \<and> c' = c\<lparr> fault := spend 1 (fault c), tx := Some (disk c) \<rparr>"
  by (auto simp: begin_tx_def storage_op_eq split: option.splits if_splits)

lemma commit_Inr:
  "commit c = (Inr u, c') \<Longrightarrow> tx c = Some d \<Longrightarrow>
     enough 1 (fault c) \<and> c' = c\<lparr> fault := spend 1 (fault c), disk := d, tx := None \<rparr>"
  by (auto simp: commit_def storage_op_eq split: option.splits if_splits)

lemma main_try_Inr:
  assumes "main_try rt ev c0 = (Inr n, c)" and "tx c0 = None"
  shows "\<exists>srows. run_rows rt ev = Inr srows \<and> n = length srows \<and>
           enough (13 + length srows) (fault c0) \<and>
           disk c = loaded srows (clock_text ev) (disk c0)"
proof -
  from assms(1) obtain u1 c1 obj rows u2 c2 u3 c3 u4 c4 u5 where
    s1: "ensure_db c0 = (Inr u1, c1)" and
    s2: "fetch_players (net ev) = Inr obj" and
    s3: "prepare_rows rt (clock ev) obj = Inr rows" and
    s4: "begin_tx c1 = (Inr u2, c2)" and
    s5: "executemany rows c2 = (Inr u3, c3)" and
    s6: "mark_cached (clock_text ev) (length rows) c3 = (Inr u4, c4)" and
    s7: "commit c4 = (Inr u5, c)" and n: "n = length rows"
    by (auto simp: main_try_def split: prod.splits sum.splits)
  from ensure_db_Inr[OF s1] have e1: "enough 8 (fault c0)" and c1: "c1 = c0\<lparr> fault := spend 8 (fault c0) \<rparr>"
    by simp_all
  from begin_tx_Inr[OF s4] have e2: "enough 1 (fault c1)"
    and c2: "c2 = c1\<lparr> fault := spend 1 (fault c1), tx := Some (disk c1) \<rparr>" by simp_all
  have t2: "tx c2 = Some (disk c0)" by (simp add: c2 c1)
  from executemany_Inr[OF s5 t2] obtain srows where
    b: "bind_rows rows = Inr srows" and e3: "enough (length srows) (fault c2)" and
    c3: "c3 = c2\<lparr> fault := spend (length srows) (fault c2),
                   tx := Some ((disk c0)\<lparr> players := fold upsert srows (players (disk c0)) \<rparr>) \<rparr>"
    by auto
  let ?d3 = "(disk c0)\<lparr> players := fold upsert srows (players (disk c0)) \<rparr>"
  have t3: "tx c3 = Some ?d3" by (simp add: c3)
  from mark_cached_Inr[OF s6 t3] have e4: "enough 3 (fault c3)" and
    c4: "c4 = c3\<lparr> fault := spend 3 (fault c3),
                 tx := Some (?d3\<lparr> meta := (meta ?d3)(''players_cached'' \<mapsto> ''1'',
                       ''players_cached_at'' \<mapsto> clock_text ev,
                       ''players_count'' \<mapsto> str_nat (length rows)) \<rparr>) \<rparr>"
    by simp_all
  let ?d4 = "?d3\<lparr> meta := (meta ?d3)(''players_cached'' \<mapsto> ''1'',
                       ''players_cached_at'' \<mapsto> clock_text ev,
                       ''players_count'' \<mapsto> str_nat (length rows)) \<rparr>"
  have t4: "tx c4 = Some ?d4" by (simp add: c4)
  from commit_Inr[OF s7 t4] have e5: "enough 1 (fault c4)" and d: "disk c = ?d4" by simp_all
  have len: "length srows = length rows" by (rule length_bind_rows[OF b])
  have rr: "run_rows rt ev = Inr srows" by (simp add: run_rows_def s2 s3 b)
  have "enough (8 + (1 + (length srows + (3 + 1)))) (fault c0)"
    using e1 e2 e3 e4 e5 unfolding enough_add[of 8] enough_add[of 1] enough_add[of "length srows"]
      enough_add[of 3]
    by (simp add: c1 c2 c3 c4 spend_add)
  then have en: "enough (13 + length srows) (fault c0)" by (simp add: add.commute)
  have "disk c = loaded srows (clock_text ev) (disk c0)"
    by (simp add: d loaded_def len)
  with rr n len en show ?thesis by simp
qed

lemma main_try_ok:
  assumes "run_rows rt ev = Inr srows" and "tx c0 = None" and "enough (13 + length srows) (fault c0)"
  shows "\<exists>c. main_try rt ev c0 = (Inr (length srows), c) \<and>
             disk c = loaded srows (clock_text ev) (disk c0)"
proof -
  from assms(1) obtain obj rows where
    s2: "fetch_players (net ev) = Inr obj" and
    s3: "prepare_rows rt (clock ev) obj = Inr rows" and
    b: "bind_rows rows = Inr srows"
    by (auto simp: run_rows_def split: sum.splits)
  have len: "length srows = length rows" by (rule length_bind_rows[OF b])
  from assms(3) have "enough (8 + (1 + (length srows + (3 + 1)))) (fault c0)"
    by (simp add: add.commute)
  then have e1: "enough 8 (fault c0)" and e2: "enough 1 (spend 8 (fault c0))"
    and e3: "enough (length srows) (spend 9 (fault c0))"
    and e4: "enough 3 (spend (9 + length srows) (fault c0))"
    and e5: "enough 1 (spend (12 + length srows) (fault c0))"
    unfolding enough_add[of 8] enough_add[of 1] enough_add[of "length srows"] enough_add[of 3]
    by (simp_all add: spend_add add.commute)
  define c1 where "c1 = c0\<lparr> fault := spend 8 (fault c0) \<rparr>"
  have s1: "ensure_db c0 = (Inr (), c1)" using e1 by (simp add: ensure_db_eq c1_def)
  define c2 where "c2 = c1\<lparr> fault := spend 9 (fault c0), tx := Some (disk c0) \<rparr>"
  have s4: "begin_tx c1 = (Inr (), c2)"
    using e2 assms(2) by (simp add: begin_tx_def storage_op_eq spend_add c1_def c2_def)
  define d3 where "d3 = (disk c0)\<lparr> players := fold upsert srows (players (disk c0)) \<rparr>"
  define c3 where "c3 = c2\<lparr> fault := spend (9 + length srows) (fault c0), tx := Some d3 \<rparr>"
  have s5: "executemany rows c2 = (Inr (), c3)"
    using executemany_ok[OF b, of c2 "disk c0"] e3 by (simp add: spend_add c2_def c3_def d3_def)
  define d4 where "d4 = d3\<lparr> meta := (meta d3)(''players_cached'' \<mapsto> ''1'',
                       ''players_cached_at'' \<mapsto> clock_text ev,
                       ''players_count'' \<mapsto> str_nat (length rows)) \<rparr>"
  define c4 where "c4 = c3\<lparr> fault := spend (12 + length srows) (fault c0), tx := Some d4 \<rparr>"
  have s6: "mark_cached (clock_text ev) (length rows) c3 = (Inr (), c4)"
    using mark_cached_ok[of c3 d3 "clock_text ev" "length rows"] e4
    by (simp add: spend_add add.commute c3_def c4_def d4_def)
  define c5 where "c5 = c4\<lparr> fault := spend 1 (fault c4), disk := d4, tx := None \<rparr>"
  have s7: "commit c4 = (Inr (), c5)"
    using e5 by (simp add: commit_def storage_op_eq c4_def c5_def)
  have "main_try rt ev c0 = (Inr (length rows), c5)"
    by (simp add: main_try_def s1 s2 s3 s4 s5 s6 s7)
  moreover have "disk c5 = loaded srows (clock_text ev) (disk c0)"
    by (simp add: loaded_def len c5_def d4_def d3_def)
  ultimately show ?thesis using len by auto
qed

lemma main_success:
  "main rt ev d0 = (Inr n, d) \<Longrightarrow>
     \<exists>srows. run_rows rt ev = Inr srows \<and> n = length srows \<and>
       enough (13 + length srows) (storage_fault ev) \<and> d = loaded srows (clock_text ev) d0"
  using main_try_Inr[of rt ev "connect d0 (storage_fault ev)" n]
  by (auto simp: main_def connect_def close_def split: prod.splits sum.splits)

lemma main_ok:
  "run_rows rt ev = Inr srows \<Longrightarrow> enough (13 + length srows) (storage_fault ev) \<Longrightarrow>
     main rt ev d0 = (Inr (length srows), loaded srows (clock_text ev) d0)"
  using main_try_ok[of rt ev srows "connect d0 (storage_fault ev)"]
  by (auto simp: main_def connect_def close_def split: prod.splits sum.splits)

section \<open>The loader: upserts into the players table\<close>

lemma bind_row_cols:
  assumes "bind_row r = Inr s"
  shows "bind (player_id r) = Inr (player_id s)"
    and "bind (first_name r) = Inr (first_name s)"
    and "bind (last_name r) = Inr (last_name s)"
    and "bind (full_name r) = Inr (full_name s)"
    and "bind (search_full_name r) = Inr (search_full_name s)"
    and "bind (search_first_name r) = Inr (search_first_name s)"
    and "bind (search_last_name r) = Inr (search_last_name s)"
    and "bind (team r) = Inr (team s)"
    and "bind (position r) = Inr (position s)"
    and "bind (status r) = Inr (status s)"
    and "bind (sport r) = Inr (sport s)"
    and "bind (number r) = Inr (number s)"
    and "bind (age r) = Inr (age s)"
    and "bind (depth_chart_position r) = Inr (depth_chart_position s)"
    and "bind (depth_chart_order r) = Inr (depth_chart_order s)"
    and "bind (years_exp r) = Inr (years_exp s)"
    and "bind (fantasy_positions_json r) = Inr (fantasy_positions_json s)"
    and "bind (data_json r) = Inr (data_json s)"
    and "bind (updated_at r) = Inr (updated_at s)"
  using assms unfolding bind_row_def sbind_def
  by (auto split: sum.splits)

lemma do_update_same: "player_id x = player_id r \<Longrightarrow> do_update x r = r"
  by (cases x, cases r) (simp add: do_update_def)

lemma player_id_do_update: "player_id (do_update x r) = player_id x"
  by (simp add: do_update_def)

lemma keys_upsert:
  "player_id r \<noteq> SNull \<Longrightarrow>
   map player_id (upsert r t) =
     (if player_id r \<in> player_id ` set t then map player_id t else map player_id t @ [player_id r])"
  by (induction t) (auto simp: player_id_do_update)

lemma distinct_upsert:
  "player_id r \<noteq> SNull \<Longrightarrow> distinct (map player_id t) \<Longrightarrow> distinct (map player_id (upsert r t))"
  by (simp add: keys_upsert)

lemma row_of_upsert:
  "player_id r \<noteq> SNull \<Longrightarrow>
   row_of k (upsert r t) = (if k = player_id r then Some r else row_of k t)"
  by (induction t) (auto simp: row_of_def do_update_same player_id_do_update)

lemma latest_snoc: "latest k (S @ [s]) = (if player_id s = k then Some s else latest k S)"
  by (simp add: latest_def)

lemma latest_Nil: "latest k [] = None"
  by (simp add: latest_def)

lemma keyset_upsert:
  "player_id r \<noteq> SNull \<Longrightarrow> player_id ` set (upsert r t) = insert (player_id r) (player_id ` set t)"
  by (induction t) (auto simp: player_id_do_update)

lemma keys_fold_upsert:
  "\<forall>s\<in>set S. player_id s \<noteq> SNull \<Longrightarrow>
   player_id ` set (fold upsert S t) = player_id ` set t \<union> player_id ` set S"
proof (induction S rule: rev_induct)
  case Nil
  then show ?case by simp
next
  case (snoc s S)
  then show ?case by (simp add: keyset_upsert)
qed

lemma distinct_fold_upsert:
  "\<forall>s\<in>set S. player_id s \<noteq> SNull \<Longrightarrow> distinct (map player_id t) \<Longrightarrow>
   distinct (map player_id (fold upsert S t))"
proof (induction S rule: rev_induct)
  case Nil
  then show ?case by simp
next
  case (snoc s S)
  then show ?case by (simp add: distinct_upsert)
qed

lemma row_of_fold_upsert:
  "\<forall>s\<in>set S. player_id s \<noteq> SNull \<Longrightarrow>
   row_of k (fold upsert S t) = (case latest k S of Some s \<Rightarrow> Some s | None \<Rightarrow> row_of k t)"
proof (induction S rule: rev_induct)
  case Nil
  then show ?case by (simp add: latest_Nil)
next
  case (snoc s S)
  then show ?case by (auto simp: row_of_upsert latest_snoc)
qed

lemma row_of_member:
  "distinct (map player_id t) \<Longrightarrow> x \<in> set t \<Longrightarrow> row_of (player_id x) t = Some x"
  by (induction t) (auto simp: row_of_def)

lemma row_of_Some: "row_of k t = Some x \<Longrightarrow> x \<in> set t \<and> player_id x = k"
  unfolding row_of_def by (induction t) (auto split: if_splits)

lemma row_of_None: "row_of k t = None \<longleftrightarrow> k \<notin> player_id ` set t"
  unfolding row_of_def by (induction t) auto

lemma latest_Some: "latest k S = Some s \<Longrightarrow> s \<in> set S \<and> player_id s = k"
  by (induction S rule: rev_induct) (auto simp: latest_snoc latest_Nil split: if_splits)

lemma latest_None: "latest k S = None \<longleftrightarrow> k \<notin> player_id ` set S"
  unfolding latest_def by (auto simp: find_None_iff)

lemma latest_last:
  "latest k S = (if filter (\<lambda>s. player_id s = k) S = [] then None
                 else Some (last (filter (\<lambda>s. player_id s = k) S)))"
  by (induction S rule: rev_induct) (auto simp: latest_snoc latest_Nil)

lemma filter_key_distinct:
  "distinct (map player_id t) \<Longrightarrow>
   filter (\<lambda>x. player_id x = k) t = (case row_of k t of None \<Rightarrow> [] | Some x \<Rightarrow> [x])"
proof (induction t)
  case Nil
  then show ?case by (simp add: row_of_def)
next
  case (Cons a t)
  have "player_id a = k \<Longrightarrow> row_of k t = None"
    using Cons.prems by (simp add: row_of_None)
  moreover have "row_of k (a # t) = (if player_id a = k then Some a else row_of k t)"
    by (simp add: row_of_def)
  ultimately show ?case using Cons by auto
qed

lemma upsert_present:
  "player_id r \<noteq> SNull \<Longrightarrow> distinct (map player_id t) \<Longrightarrow> player_id r \<in> player_id ` set t \<Longrightarrow>
   upsert r t = map (\<lambda>x. if player_id x = player_id r then r else x) t"
proof (induction t)
  case Nil
  then show ?case by simp
next
  case (Cons a t)
  show ?case
  proof (cases "player_id a = player_id r")
    case True
    have "player_id a \<notin> player_id ` set t" using Cons.prems(2) by simp
    then have "player_id r \<notin> player_id ` set t" using True by simp
    then have "\<forall>x\<in>set t. player_id x \<noteq> player_id r" by (metis imageI)
    then have "map (\<lambda>x. if player_id x = player_id r then r else x) t = t"
      by (simp add: map_idI)
    with True Cons.prems(1) show ?thesis by (simp add: do_update_same)
  next
    case False
    with Cons show ?thesis by auto
  qed
qed

lemma fold_upsert_present:
  assumes "distinct (map player_id t)"
    and "\<forall>s\<in>set S. player_id s \<noteq> SNull \<and> player_id s \<in> player_id ` set t"
  shows "fold upsert S t = map (\<lambda>x. case latest (player_id x) S of Some s \<Rightarrow> s | None \<Rightarrow> x) t"
  using assms(2)
proof (induction S rule: rev_induct)
  case Nil
  then show ?case by (simp add: latest_Nil)
next
  case (snoc s S)
  let ?g = "\<lambda>x. case latest (player_id x) S of Some s \<Rightarrow> s | None \<Rightarrow> x"
  have ih: "fold upsert S t = map ?g t" using snoc by simp
  have key: "\<And>x. player_id (?g x) = player_id x"
    by (auto split: option.splits dest: latest_Some)
  have keys: "map player_id (map ?g t) = map player_id t"
    by (simp add: key)
  have d: "distinct (map player_id (map ?g t))" using assms(1) by (simp only: keys)
  have m: "player_id s \<in> player_id ` set (map ?g t)"
    using snoc.prems key by (force simp: image_iff)
  have n: "player_id s \<noteq> SNull" using snoc.prems by simp
  have "fold upsert (S @ [s]) t = upsert s (map ?g t)" by (simp add: ih)
  also have "\<dots> = map (\<lambda>x. if player_id x = player_id s then s else x) (map ?g t)"
    by (rule upsert_present[OF n d m])
  also have "\<dots> = map (\<lambda>x. case latest (player_id x) (S @ [s]) of Some s \<Rightarrow> s | None \<Rightarrow> x) t"
    by (auto simp: latest_snoc key)
  finally show ?case .
qed

section \<open>The loader: the rows of a run\<close>

lemma prepare_row_Inr:
  assumes "prepare_row rt now key pv = Inr r"
  shows "\<exists>p fn. pv = JObj p \<and> full_name_of p = Inr fn \<and>
           r = \<lparr> player_id = JStr (row_key rt key p),
                 first_name = dict_get p ''first_name'',
                 last_name = dict_get p ''last_name'',
                 full_name = fn,
                 search_full_name = dict_get p ''search_full_name'',
                 search_first_name = dict_get p ''search_first_name'',
                 search_last_name = dict_get p ''search_last_name'',
                 team = dict_get p ''team'',
                 position = dict_get p ''position'',
                 status = dict_get p ''status'',
                 sport = dict_get p ''sport'',
                 number = dict_get p ''number'',
                 age = dict_get p ''age'',
                 depth_chart_position = dict_get p ''depth_chart_position'',
                 depth_chart_order = dict_get p ''depth_chart_order'',
                 years_exp = dict_get p ''years_exp'',
                 fantasy_positions_json = fantasy_positions_json_of rt p,
                 data_json = JStr (json_dumps_compact rt pv),
                 updated_at = JInt now \<rparr>"
  using assms by (auto simp: prepare_row_def split: json.splits sum.splits)

lemma stored_keys:
  assumes "stored rt now (key, pv) s"
  shows "\<exists>p. pv = JObj p \<and> player_id s = SText (row_key rt key p) \<and>
             data_json s = SText (json_dumps_compact rt pv) \<and> updated_at s = SInt now"
proof -
  from assms obtain r where p: "prepare_row rt now key pv = Inr r" and b: "bind_row r = Inr s"
    by (auto simp: stored_def)
  from prepare_row_Inr[OF p] obtain p' where pv: "pv = JObj p'"
    and k: "player_id r = JStr (row_key rt key p')"
    and d: "data_json r = JStr (json_dumps_compact rt pv)" and u: "updated_at r = JInt now"
    by auto
  from bind_row_cols(1)[OF b] k have "player_id s = SText (row_key rt key p')" by simp
  moreover from bind_row_cols(18)[OF b] d have "data_json s = SText (json_dumps_compact rt pv)" by simp
  moreover from bind_row_cols(19)[OF b] u have "updated_at s = SInt now"
    by (simp split: if_splits)
  ultimately show ?thesis using pv by simp
qed

lemma prepare_items_stored:
  "prepare_items rt now items = Inr rows \<Longrightarrow> bind_rows rows = Inr srows \<Longrightarrow>
   list_all2 (stored rt now) items srows"
proof (induction items arbitrary: rows srows)
  case Nil
  then show ?case by simp
next
  case (Cons item items)
  obtain key pv where item: "item = (key, pv)" by (cases item)
  from Cons.prems(1) item obtain r rs where r: "prepare_row rt now key pv = Inr r"
    and rs: "prepare_items rt now items = Inr rs" and rows: "rows = r # rs"
    by (auto split: sum.splits)
  from Cons.prems(2) rows obtain s ss where s: "bind_row r = Inr s" and ss: "bind_rows rs = Inr ss"
    and srows: "srows = s # ss"
    by (auto split: sum.splits)
  from Cons.IH[OF rs ss] r s item srows show ?case by (auto simp: stored_def)
qed

lemma run_rows_stored:
  assumes "run_rows rt ev = Inr srows"
  shows "\<exists>items. fetch_players (net ev) = Inr (JObj items) \<and>
           list_all2 (stored rt (clock ev)) items srows"
proof -
  from assms obtain obj rows where f: "fetch_players (net ev) = Inr obj"
    and p: "prepare_rows rt (clock ev) obj = Inr rows" and b: "bind_rows rows = Inr srows"
    by (auto simp: run_rows_def split: sum.splits)
  from p obtain items where obj: "obj = JObj items" and pi: "prepare_items rt (clock ev) items = Inr rows"
    by (auto simp: prepare_rows_def split: json.splits)
  from prepare_items_stored[OF pi b] f obj show ?thesis by auto
qed

lemma stored_set:
  "list_all2 (stored rt now) items srows \<Longrightarrow> s \<in> set srows \<Longrightarrow>
   \<exists>item\<in>set items. stored rt now item s"
  by (induction rule: list_all2_induct) auto

lemma run_rows_facts:
  assumes "run_rows rt ev = Inr srows" and "s \<in> set srows"
  shows "player_id s \<noteq> SNull \<and> data_json s \<noteq> SNull \<and> updated_at s = SInt (clock ev)"
proof -
  from run_rows_stored[OF assms(1)] obtain items where
    l: "list_all2 (stored rt (clock ev)) items srows" by auto
  from stored_set[OF l assms(2)] obtain key pv where "stored rt (clock ev) (key, pv) s" by auto
  from stored_keys[OF this] show ?thesis by auto
qed

lemma run_rows_keys: "run_rows rt ev = Inr srows \<Longrightarrow> \<forall>s\<in>set srows. player_id s \<noteq> SNull"
  using run_rows_facts by blast

lemma prepare_row_clock:
  "prepare_row rt c key pv = Inr r \<Longrightarrow> prepare_row rt c' key pv = Inr (r\<lparr> updated_at := JInt c' \<rparr>)"
  by (auto simp: prepare_row_def split: json.splits sum.splits)

lemma bind_row_clock:
  assumes "bind_row r = Inr s" and "bind_row (r\<lparr> updated_at := JInt c' \<rparr>) = Inr s'"
  shows "s' = s\<lparr> updated_at := SInt c' \<rparr>"
proof -
  note a = bind_row_cols[OF assms(1)]
  note b = bind_row_cols[OF assms(2)]
  from b(19) have u: "updated_at s' = SInt c'" by (simp split: if_splits)
  show ?thesis
    using a(1-18) b(1-18) u by (cases s, cases s') simp
qed

lemma stored_clock:
  "stored rt c item s \<Longrightarrow> stored rt c' item s' \<Longrightarrow> s' = s\<lparr> updated_at := SInt c' \<rparr>"
  unfolding stored_def
  using prepare_row_clock bind_row_clock by (metis sum.inject(2))

lemma stored_all_clock:
  "list_all2 (stored rt c) items S \<Longrightarrow> list_all2 (stored rt c') items S' \<Longrightarrow>
   S' = map (\<lambda>s. s\<lparr> updated_at := SInt c' \<rparr>) S"
proof (induction items arbitrary: S S')
  case Nil
  then show ?case by simp
next
  case (Cons item items)
  then show ?case
    by (auto simp: list_all2_Cons1 dest: stored_clock)
qed

section \<open>The loader: the table after a run\<close>

lemma set_upsert: "set (upsert r t) \<subseteq> insert r (set t)"
  by (induction t) (auto simp: do_update_same)

lemma set_fold_upsert: "set (fold upsert S t) \<subseteq> set S \<union> set t"
proof (induction S rule: rev_induct)
  case Nil
  then show ?case by simp
next
  case (snoc s S)
  then show ?case using set_upsert[of s "fold upsert S t"] by auto
qed

lemma players_loaded: "players (loaded S t d) = fold upsert S (players d)"
  by (simp add: loaded_def)

lemma table_row_cases:
  assumes "\<forall>s\<in>set S. player_id s \<noteq> SNull" and "distinct (map player_id t)"
    and "x \<in> set (fold upsert S t)"
  shows "(case latest (player_id x) S of Some s \<Rightarrow> x = s | None \<Rightarrow> x \<in> set t)"
proof -
  have "distinct (map player_id (fold upsert S t))"
    by (rule distinct_fold_upsert[OF assms(1,2)])
  from row_of_member[OF this assms(3)]
  have "row_of (player_id x) (fold upsert S t) = Some x" .
  then show ?thesis
    by (auto simp: row_of_fold_upsert[OF assms(1)] split: option.splits dest: row_of_Some)
qed

section \<open>The loader: the cells of a row\<close>

lemma dict_get_absent: "map_of p f = None \<Longrightarrow> dict_get p f = JNull"
  by (simp add: dict_get_def)

lemma str_join_two:
  "str_join sep (filter truthy [x, y]) =
     (if truthy x \<and> truthy y
      then (case (x, y) of (JStr a, JStr b) \<Rightarrow> Inr (a @ sep @ b) | _ \<Rightarrow> Inl TypeError)
      else if truthy x then (case x of JStr a \<Rightarrow> Inr a | _ \<Rightarrow> Inl TypeError)
      else if truthy y then (case y of JStr b \<Rightarrow> Inr b | _ \<Rightarrow> Inl TypeError)
      else Inr [])"
  by (cases x; cases y; simp)

lemma full_name_of_Inr:
  assumes "full_name_of p = Inr fn"
  shows "(\<forall>a b. dict_get p ''first_name'' = JStr a \<and> a \<noteq> [] \<and>
                 dict_get p ''last_name'' = JStr b \<and> b \<noteq> [] \<longrightarrow> fn = JStr (a @ '' '' @ b))"
    and "(\<forall>a. dict_get p ''first_name'' = JStr a \<and> a \<noteq> [] \<and>
               \<not> truthy (dict_get p ''last_name'') \<longrightarrow> fn = JStr a)"
    and "(\<forall>b. \<not> truthy (dict_get p ''first_name'') \<and>
               dict_get p ''last_name'' = JStr b \<and> b \<noteq> [] \<longrightarrow> fn = JStr b)"
    and "(\<not> truthy (dict_get p ''first_name'') \<and> \<not> truthy (dict_get p ''last_name'') \<longrightarrow>
            fn = dict_get p ''full_name'')"
    and "(truthy (dict_get p ''first_name'') \<longrightarrow> (\<exists>a. dict_get p ''first_name'' = JStr a \<and> a \<noteq> []))"
    and "(truthy (dict_get p ''last_name'') \<longrightarrow> (\<exists>b. dict_get p ''last_name'' = JStr b \<and> b \<noteq> []))"
  using assms unfolding full_name_of_def Let_def str_join_two
       apply (auto simp: py_or_def split: if_splits json.splits sum.splits)
   apply metis+
  done

lemma players_key_payload_invariant:
  assumes "main rt ev d0 = (Inr n, d)"
    and "\<forall>x\<in>set (players d0). player_id x \<noteq> SNull \<and> data_json x \<noteq> SNull"
  shows "\<forall>x\<in>set (players d). player_id x \<noteq> SNull \<and> data_json x \<noteq> SNull"
proof
  fix x assume x: "x \<in> set (players d)"
  from main_success[OF assms(1)] obtain S where
    r: "run_rows rt ev = Inr S" and d: "d = loaded S (clock_text ev) d0" by auto
  from x d have "x \<in> set (fold upsert S (players d0))" by (simp add: players_loaded)
  with set_fold_upsert[of S "players d0"] have "x \<in> set S \<or> x \<in> set (players d0)" by auto
  then show "player_id x \<noteq> SNull \<and> data_json x \<noteq> SNull"
  proof
    assume "x \<in> set S"
    from run_rows_facts[OF r this] show ?thesis by simp
  next
    assume "x \<in> set (players d0)"
    with assms(2) show ?thesis by simp
  qed
qed

lemma optional_columns_null:
  assumes "prepare_row rt now key (JObj p) = Inr r" and "bind_row r = Inr s"
  shows "(map_of p ''first_name'' = None \<longrightarrow> first_name s = SNull) \<and>
         (map_of p ''last_name'' = None \<longrightarrow> last_name s = SNull) \<and>
         (map_of p ''first_name'' = None \<and> map_of p ''last_name'' = None \<and>
          map_of p ''full_name'' = None \<longrightarrow> full_name s = SNull) \<and>
         (map_of p ''search_full_name'' = None \<longrightarrow> search_full_name s = SNull) \<and>
         (map_of p ''search_first_name'' = None \<longrightarrow> search_first_name s = SNull) \<and>
         (map_of p ''search_last_name'' = None \<longrightarrow> search_last_name s = SNull) \<and>
         (map_of p ''team'' = None \<longrightarrow> team s = SNull) \<and>
         (map_of p ''position'' = None \<longrightarrow> position s = SNull) \<and>
         (map_of p ''status'' = None \<longrightarrow> status s = SNull) \<and>
         (map_of p ''sport'' = None \<longrightarrow> sport s = SNull) \<and>
         (map_of p ''number'' = None \<longrightarrow> number s = SNull) \<and>
         (map_of p ''age'' = None \<longrightarrow> age s = SNull) \<and>
         (map_of p ''depth_chart_position'' = None \<longrightarrow> depth_chart_position s = SNull) \<and>
         (map_of p ''depth_chart_order'' = None \<longrightarrow> depth_chart_order s = SNull) \<and>
         (map_of p ''years_exp'' = None \<longrightarrow> years_exp s = SNull) \<and>
         (map_of p ''fantasy_positions'' = None \<longrightarrow> fantasy_positions_json s = SNull)"
proof -
  from prepare_row_Inr[OF assms(1)] obtain fn where
    f: "full_name_of p = Inr fn" and
    r: "first_name r = dict_get p ''first_name''" "last_name r = dict_get p ''last_name''"
       "full_name r = fn"
       "search_full_name r = dict_get p ''search_full_name''"
       "search_first_name r = dict_get p ''search_first_name''"
       "search_last_name r = dict_get p ''search_last_name''"
       "team r = dict_get p ''team''" "position r = dict_get p ''position''"
       "status r = dict_get p ''status''" "sport r = dict_get p ''sport''"
       "number r = dict_get p ''number''" "age r = dict_get p ''age''"
       "depth_chart_position r = dict_get p ''depth_chart_position''"
       "depth_chart_order r = dict_get p ''depth_chart_order''"
       "years_exp r = dict_get p ''years_exp''"
       "fantasy_positions_json r = fantasy_positions_json_of rt p"
    by auto
  note b = bind_row_cols[OF assms(2)]
  have fn: "map_of p ''first_name'' = None \<and> map_of p ''last_name'' = None \<and>
          map_of p ''full_name'' = None \<longrightarrow> fn = JNull"
    using full_name_of_Inr(4)[OF f] by (simp add: dict_get_absent)
  have fp: "map_of p ''fantasy_positions'' = None \<longrightarrow> fantasy_positions_json_of rt p = JNull"
    by (simp add: fantasy_positions_json_of_def dict_get_absent)
  show ?thesis
    apply (intro conjI impI)
    using b(2) r(1) apply (simp add: dict_get_absent)
    using b(3) r(2) apply (simp add: dict_get_absent)
    using b(4) r(3) fn apply simp
    using b(5) r(4) apply (simp add: dict_get_absent)
    using b(6) r(5) apply (simp add: dict_get_absent)
    using b(7) r(6) apply (simp add: dict_get_absent)
    using b(8) r(7) apply (simp add: dict_get_absent)
    using b(9) r(8) apply (simp add: dict_get_absent)
    using b(10) r(9) apply (simp add: dict_get_absent)
    using b(11) r(10) apply (simp add: dict_get_absent)
    using b(12) r(11) apply (simp add: dict_get_absent)
    using b(13) r(12) apply (simp add: dict_get_absent)
    using b(14) r(13) apply (simp add: dict_get_absent)
    using b(15) r(14) apply (simp add: dict_get_absent)
    using b(16) r(15) apply (simp add: dict_get_absent)
    using b(17) r(16) fp apply simp
    done
qed

lemma row_key_eq:
  "row_key rt key p =
     (if truthy (dict_get p ''player_id'') then py_str rt (dict_get p ''player_id'') else key)"
  by (simp add: row_key_def py_or_def)

section \<open>The examples evaluated\<close>

lemma fetch_sample: "fetch_players (net (sample_env doc now f)) = Inr doc"
  by (simp add: fetch_players_def sample_env_def)

lemma prepare_tom:
  "prepare_row sample_runtime now ''1'' (JObj tom_brady) =
     Inr \<lparr> player_id = JStr ''1'', first_name = JStr ''Tom'', last_name = JStr ''Brady'',
           full_name = JStr ''Tom Brady'',
           search_full_name = JNull, search_first_name = JNull, search_last_name = JNull,
           team = JNull, position = JNull, status = JNull, sport = JNull, number = JNull,
           age = JNull, depth_chart_position = JNull, depth_chart_order = JNull,
           years_exp = JNull, fantasy_positions_json = JNull, data_json = JStr ''<json>'',
           updated_at = JInt now \<rparr>"
  by (simp add: prepare_row_def full_name_of_def dict_get_def tom_brady_def py_or_def row_key_def
      fantasy_positions_json_of_def sample_runtime_def)

lemma prepare_only_full_name:
  "prepare_row sample_runtime now ''2'' (JObj only_full_name) =
     Inr \<lparr> player_id = JStr ''2'', first_name = JNull, last_name = JNull,
           full_name = JStr ''X Y'',
           search_full_name = JNull, search_first_name = JNull, search_last_name = JNull,
           team = JNull, position = JNull, status = JNull, sport = JNull, number = JNull,
           age = JNull, depth_chart_position = JNull, depth_chart_order = JNull,
           years_exp = JNull, fantasy_positions_json = JNull, data_json = JStr ''<json>'',
           updated_at = JInt now \<rparr>"
  by (simp add: prepare_row_def full_name_of_def dict_get_def only_full_name_def py_or_def row_key_def
      fantasy_positions_json_of_def sample_runtime_def)

lemma run_rows_sample:
  "- (2 ^ 63) \<le> now \<Longrightarrow> now < 2 ^ 63 \<Longrightarrow>
   run_rows sample_runtime (sample_env sample_players now f) = Inr (sample_rows now)"
  by (simp add: run_rows_def fetch_sample prepare_rows_def sample_players_def prepare_tom
      prepare_only_full_name bind_row_def sbind_def sample_rows_def blank_row_def)
     (simp add: sample_env_def prepare_tom prepare_only_full_name bind_row_def sbind_def)

lemma clock_text_sample: "clock_text (sample_env doc now f) = ''Tue Nov  3 14:46:00 2026''"
  by (simp add: sample_env_def)

lemma storage_fault_sample: "storage_fault (sample_env doc now f) = f"
  by (simp add: sample_env_def)

lemma clock_sample: "clock (sample_env doc now f) = now"
  by (simp add: sample_env_def)

lemma net_sample: "net (sample_env doc now f) = net (sample_env doc now' f')"
  by (simp add: sample_env_def)

lemma main_sample:
  "- (2 ^ 63) \<le> now \<Longrightarrow> now < 2 ^ 63 \<Longrightarrow>
   main sample_runtime (sample_env sample_players now None) d0 =
     (Inr 2, loaded (sample_rows now) ''Tue Nov  3 14:46:00 2026'' d0)"
  using main_ok[of sample_runtime "sample_env sample_players now None" "sample_rows now" d0]
  by (simp add: run_rows_sample clock_text_sample storage_fault_sample enough_def)
     (simp add: sample_rows_def)

lemma players_first_run:
  "players (loaded (sample_rows now) t empty_db) = sample_rows now"
  by (simp add: loaded_def empty_db_def sample_rows_def blank_row_def)

lemma players_old_db_run:
  "players (loaded (sample_rows now) t old_db) = blank_row ''9'' 50 # sample_rows now"
  by (simp add: loaded_def old_db_def sample_rows_def blank_row_def do_update_def)

lemma players_old_db_second_run:
  "players (loaded (sample_rows now') t' (loaded (sample_rows now) t old_db)) =
     blank_row ''9'' 50 # sample_rows now'"
  by (simp add: loaded_def old_db_def sample_rows_def blank_row_def do_update_def)

lemma bind_only_full_name:
  "bind_row \<lparr> player_id = JStr ''2'', first_name = JNull, last_name = JNull,
           full_name = JStr ''X Y'',
           search_full_name = JNull, search_first_name = JNull, search_last_name = JNull,
           team = JNull, position = JNull, status = JNull, sport = JNull, number = JNull,
           age = JNull, depth_chart_position = JNull, depth_chart_order = JNull,
           years_exp = JNull, fantasy_positions_json = JNull, data_json = JStr ''<json>'',
           updated_at = JInt 100 \<rparr> = Inr ((blank_row ''2'' 100)\<lparr> full_name := SText ''X Y'' \<rparr>)"
  by (simp add: bind_row_def sbind_def blank_row_def)

lemma distinct_old_db: "distinct (map player_id (players old_db))"
  by (simp add: old_db_def blank_row_def)

lemma str_int_7: "str_int 7 = ''7''"
  by (simp add: str_int_def str_nat.simps)

lemma run_rows_colliding:
  "run_rows sample_runtime (sample_env colliding_players 100 f) = Inr (colliding_rows 100)"
  by (simp add: run_rows_def fetch_sample prepare_rows_def colliding_players_def prepare_row_def
      full_name_of_def dict_get_def py_or_def row_key_def fantasy_positions_json_of_def
      sample_runtime_def bind_row_def sbind_def colliding_rows_def blank_row_def str_int_7
      clock_sample)

lemma main_colliding:
  "main sample_runtime (sample_env colliding_players 100 None) d0 =
     (Inr 3, loaded (colliding_rows 100) ''Tue Nov  3 14:46:00 2026'' d0)"
  using main_ok[of sample_runtime "sample_env colliding_players 100 None" "colliding_rows 100" d0]
  by (simp add: run_rows_colliding clock_text_sample storage_fault_sample enough_def)
     (simp add: colliding_rows_def)

lemma players_colliding_run:
  "players (loaded (colliding_rows 100) t empty_db) =
     [(blank_row ''7'' 100)\<lparr> first_name := SText ''Second'', full_name := SText ''Second'' \<rparr>,
      blank_row ''c'' 100]"
  by (simp add: loaded_def empty_db_def colliding_rows_def blank_row_def do_update_def)


section \<open>The properties\<close>

text \<open>
  C1, as amended. For every record from which a row is produced, the row's \<open>full_name\<close> is
  built from those of \<open>first_name\<close> and \<open>last_name\<close> that are truthy (present, not null
  and not empty): both joined by one space when both are, the one that is when only one is,
  and the upstream \<open>full_name\<close> field (null when absent) when neither is. A truthy name is
  a non-empty string, since \<open>join\<close> raises on anything else and no row is produced then.
\<close>

theorem full_name_rule:
  assumes "prepare_row rt now key (JObj p) = Inr r"
  shows "(\<forall>a b. dict_get p ''first_name'' = JStr a \<and> a \<noteq> [] \<and>
                 dict_get p ''last_name'' = JStr b \<and> b \<noteq> [] \<longrightarrow>
                 full_name r = JStr (a @ '' '' @ b)) \<and>
         (\<forall>a. dict_get p ''first_name'' = JStr a \<and> a \<noteq> [] \<and>
               \<not> truthy (dict_get p ''last_name'') \<longrightarrow> full_name r = JStr a) \<and>
         (\<forall>b. \<not> truthy (dict_get p ''first_name'') \<and>
               dict_get p ''last_name'' = JStr b \<and> b \<noteq> [] \<longrightarrow> full_name r = JStr b) \<and>
         (\<not> truthy (dict_get p ''first_name'') \<and> \<not> truthy (dict_get p ''last_name'') \<longrightarrow>
            full_name r = dict_get p ''full_name'') \<and>
         (truthy (dict_get p ''first_name'') \<longrightarrow>
            (\<exists>a. dict_get p ''first_name'' = JStr a \<and> a \<noteq> [])) \<and>
         (truthy (dict_get p ''last_name'') \<longrightarrow>
            (\<exists>b. dict_get p ''last_name'' = JStr b \<and> b \<noteq> []))"
proof -
  from prepare_row_Inr[OF assms] obtain fn where
    f: "full_name_of p = Inr fn" and r: "full_name r = fn" by auto
  note c = full_name_of_Inr[OF f]
  show ?thesis
    unfolding r using c by (intro conjI)
qed

text \<open>
  The rule at the two records of the specification (\<open>Tom Brady\<close>; only \<open>full_name\<close>
  given) and at two records with one name only.
\<close>

theorem full_name_rule_witness:
  "map_sum id full_name (prepare_row sample_runtime 100 ''1'' (JObj tom_brady)) =
     Inr (JStr ''Tom Brady'') \<and>
   map_sum id full_name (prepare_row sample_runtime 100 ''1'' (JObj tom_only)) =
     Inr (JStr ''Tom'') \<and>
   map_sum id full_name (prepare_row sample_runtime 100 ''1'' (JObj brady_only)) =
     Inr (JStr ''Brady'') \<and>
   map_sum id full_name (prepare_row sample_runtime 100 ''2'' (JObj only_full_name)) =
     Inr (JStr ''X Y'')"
proof -
  obtain r1 where p1: "prepare_row sample_runtime 100 ''1'' (JObj tom_brady) = Inr r1"
    by (simp add: prepare_row_def full_name_of_def dict_get_def tom_brady_def)
  obtain r2 where p2: "prepare_row sample_runtime 100 ''1'' (JObj tom_only) = Inr r2"
    by (simp add: prepare_row_def full_name_of_def dict_get_def tom_only_def)
  obtain r3 where p3: "prepare_row sample_runtime 100 ''1'' (JObj brady_only) = Inr r3"
    by (simp add: prepare_row_def full_name_of_def dict_get_def brady_only_def)
  obtain r4 where p4: "prepare_row sample_runtime 100 ''2'' (JObj only_full_name) = Inr r4"
    by (simp add: prepare_row_def full_name_of_def dict_get_def only_full_name_def)
  have "full_name r1 = JStr ''Tom Brady''"
    using full_name_rule[OF p1] by (simp add: dict_get_def tom_brady_def)
  moreover have "full_name r2 = JStr ''Tom''"
    using full_name_rule[OF p2] by (simp add: dict_get_def tom_only_def)
  moreover have "full_name r3 = JStr ''Brady''"
    using full_name_rule[OF p3] by (simp add: dict_get_def brady_only_def)
  moreover have "full_name r4 = JStr ''X Y''"
    using full_name_rule[OF p4] by (simp add: dict_get_def only_full_name_def)
  ultimately show ?thesis by (simp add: p1 p2 p3 p4)
qed

text \<open>
  C1 as stated fails: the record \<open>{"first_name": "Tom", "full_name": "X Y"}\<close> has no
  \<open>last_name\<close>, so the stated rule falls back to \<open>"X Y"\<close>, while the row of \<open>main\<close>
  carries \<open>"Tom"\<close>.
\<close>

theorem full_name_fallback_counterexample:
  "map_of tom_only ''last_name'' = None \<and>
   full_name_claimed tom_only = JStr ''X Y'' \<and>
   map_sum id full_name (prepare_row sample_runtime 100 ''1'' (JObj tom_only)) = Inr (JStr ''Tom'')"
  by (simp add: tom_only_def full_name_claimed_def dict_get_def prepare_row_def full_name_of_def
      py_or_def)



text \<open>
  C3, as amended. Two successful runs against the same upstream: after the second run the
  players table has as many rows as after the first, in the same order, and every row is the
  row after the first run with \<open>updated_at\<close> set to the clock of the second run when its
  key is one the run writes, and unchanged otherwise (a row left by an earlier load that the
  dataset no longer has). Starting from an empty table every row is written, so every
  \<open>updated_at\<close> is the second clock. The table before the first run satisfies its primary
  key.
\<close>

theorem loader_idempotent:
  assumes "distinct (map player_id (players d0))"
    and "net ev2 = net ev1"
    and "main rt ev1 d0 = (Inr n1, d1)"
    and "main rt ev2 d1 = (Inr n2, d2)"
  shows "length (players d2) = length (players d1) \<and>
         (\<exists>srows. run_rows rt ev1 = Inr srows \<and>
            players d2 =
              map (\<lambda>x. if player_id x \<in> player_id ` set srows
                        then x\<lparr> updated_at := SInt (clock ev2) \<rparr> else x) (players d1)) \<and>
         (players d0 = [] \<longrightarrow>
            players d2 = map (\<lambda>x. x\<lparr> updated_at := SInt (clock ev2) \<rparr>) (players d1))"
proof -
  from main_success[OF assms(3)] obtain S1 where
    r1: "run_rows rt ev1 = Inr S1" and d1: "d1 = loaded S1 (clock_text ev1) d0" by auto
  from main_success[OF assms(4)] obtain S2 where
    r2: "run_rows rt ev2 = Inr S2" and d2: "d2 = loaded S2 (clock_text ev2) d1" by auto
  let ?st = "\<lambda>s. s\<lparr> updated_at := SInt (clock ev2) \<rparr>"
  let ?T0 = "players d0" and ?T1 = "players d1"
  from run_rows_stored[OF r1] run_rows_stored[OF r2] assms(2)
  obtain items where l1: "list_all2 (stored rt (clock ev1)) items S1"
    and l2: "list_all2 (stored rt (clock ev2)) items S2" by auto
  have S2: "S2 = map ?st S1" by (rule stored_all_clock[OF l1 l2])
  have k1: "\<forall>s\<in>set S1. player_id s \<noteq> SNull" by (rule run_rows_keys[OF r1])
  have k2: "\<forall>s\<in>set S2. player_id s \<noteq> SNull" by (rule run_rows_keys[OF r2])
  have T1: "?T1 = fold upsert S1 ?T0" by (simp add: d1 players_loaded)
  have dist1: "distinct (map player_id ?T1)"
    unfolding T1 by (rule distinct_fold_upsert[OF k1 assms(1)])
  have keys1: "player_id ` set ?T1 = player_id ` set ?T0 \<union> player_id ` set S1"
    unfolding T1 by (rule keys_fold_upsert[OF k1])
  have "map player_id S2 = map player_id S1" by (simp add: S2)
  from arg_cong[OF this, of set] have keys2: "player_id ` set S2 = player_id ` set S1" by simp
  have pres: "\<forall>s\<in>set S2. player_id s \<noteq> SNull \<and> player_id s \<in> player_id ` set ?T1"
  proof
    fix s assume s: "s \<in> set S2"
    then have "player_id s \<in> player_id ` set S2" by (rule imageI)
    then have "player_id s \<in> player_id ` set ?T1" by (simp add: keys2 keys1)
    with k2 s show "player_id s \<noteq> SNull \<and> player_id s \<in> player_id ` set ?T1" by simp
  qed
  have T2: "players d2 = map (\<lambda>x. case latest (player_id x) S2 of Some s \<Rightarrow> s | None \<Rightarrow> x) ?T1"
    using fold_upsert_present[OF dist1 pres] by (simp add: d2 players_loaded)
  have lat: "\<And>k. latest k S2 = map_option ?st (latest k S1)"
    unfolding S2 by (induct_tac S1 rule: rev_induct) (simp_all add: latest_Nil latest_snoc)
  have pt: "\<And>x. x \<in> set ?T1 \<Longrightarrow>
      (case latest (player_id x) S2 of Some s \<Rightarrow> s | None \<Rightarrow> x) =
      (if player_id x \<in> player_id ` set S1 then ?st x else x)"
  proof -
    fix x assume x: "x \<in> set ?T1"
    from table_row_cases[OF k1 assms(1)] x T1
    have c: "(case latest (player_id x) S1 of Some s \<Rightarrow> x = s | None \<Rightarrow> x \<in> set ?T0)" by simp
    show "(case latest (player_id x) S2 of Some s \<Rightarrow> s | None \<Rightarrow> x) =
      (if player_id x \<in> player_id ` set S1 then ?st x else x)"
    proof (cases "latest (player_id x) S1")
      case None
      with latest_None[of "player_id x" S1] have "player_id x \<notin> player_id ` set S1" by simp
      with None show ?thesis by (simp add: lat)
    next
      case (Some s)
      with c have "x = s" by simp
      moreover from Some have "player_id x \<in> player_id ` set S1"
        using latest_None[of "player_id x" S1] by auto
      ultimately show ?thesis using Some by (simp add: lat)
    qed
  qed
  have eq: "players d2 = map (\<lambda>x. if player_id x \<in> player_id ` set S1 then ?st x else x) ?T1"
    unfolding T2 by (rule map_cong) (simp_all add: pt)
  have len: "length (players d2) = length ?T1" by (simp add: eq)
  have emp: "players d0 = [] \<Longrightarrow> players d2 = map ?st ?T1"
  proof -
    assume "players d0 = []"
    with keys1 have "\<forall>x\<in>set ?T1. player_id x \<in> player_id ` set S1" by auto
    then show ?thesis unfolding eq by (auto intro: map_cong)
  qed
  show ?thesis
  proof (intro conjI)
    show "length (players d2) = length ?T1" by (rule len)
    show "\<exists>srows. run_rows rt ev1 = Inr srows \<and>
            players d2 =
              map (\<lambda>x. if player_id x \<in> player_id ` set srows
                        then x\<lparr> updated_at := SInt (clock ev2) \<rparr> else x) ?T1"
      using r1 eq by (intro exI[of _ S1]) simp
    show "players d0 = [] \<longrightarrow> players d2 = map ?st ?T1" using emp by simp
  qed
qed

text \<open>
  Two runs of the sample dataset at the clocks 100 and 200, from an empty database and from
  a database of two rows, one of them with a key the dataset does not have.
\<close>

theorem loader_idempotent_witness:
  "distinct (map player_id (players empty_db)) \<and>
   net (sample_env sample_players 200 None) = net (sample_env sample_players 100 None) \<and>
   main sample_runtime (sample_env sample_players 100 None) empty_db =
     (Inr 2, loaded (sample_rows 100) ''Tue Nov  3 14:46:00 2026'' empty_db) \<and>
   main sample_runtime (sample_env sample_players 200 None)
       (loaded (sample_rows 100) ''Tue Nov  3 14:46:00 2026'' empty_db) =
     (Inr 2, loaded (sample_rows 200) ''Tue Nov  3 14:46:00 2026''
               (loaded (sample_rows 100) ''Tue Nov  3 14:46:00 2026'' empty_db)) \<and>
   length (players (loaded (sample_rows 200) ''Tue Nov  3 14:46:00 2026''
               (loaded (sample_rows 100) ''Tue Nov  3 14:46:00 2026'' empty_db))) =
     length (players (loaded (sample_rows 100) ''Tue Nov  3 14:46:00 2026'' empty_db)) \<and>
   players (loaded (sample_rows 200) ''Tue Nov  3 14:46:00 2026''
               (loaded (sample_rows 100) ''Tue Nov  3 14:46:00 2026'' empty_db)) =
     map (\<lambda>x. x\<lparr> updated_at := SInt 200 \<rparr>)
       (players (loaded (sample_rows 100) ''Tue Nov  3 14:46:00 2026'' empty_db)) \<and>
   players (loaded (sample_rows 100) ''Tue Nov  3 14:46:00 2026'' empty_db) = sample_rows 100 \<and>
   distinct (map player_id (players old_db)) \<and>
   main sample_runtime (sample_env sample_players 100 None) old_db =
     (Inr 2, loaded (sample_rows 100) ''Tue Nov  3 14:46:00 2026'' old_db) \<and>
   main sample_runtime (sample_env sample_players 200 None)
       (loaded (sample_rows 100) ''Tue Nov  3 14:46:00 2026'' old_db) =
     (Inr 2, loaded (sample_rows 200) ''Tue Nov  3 14:46:00 2026''
               (loaded (sample_rows 100) ''Tue Nov  3 14:46:00 2026'' old_db)) \<and>
   players (loaded (sample_rows 200) ''Tue Nov  3 14:46:00 2026''
               (loaded (sample_rows 100) ''Tue Nov  3 14:46:00 2026'' old_db)) =
     map (\<lambda>x. if player_id x \<in> player_id ` set (sample_rows 100)
               then x\<lparr> updated_at := SInt 200 \<rparr> else x)
       (players (loaded (sample_rows 100) ''Tue Nov  3 14:46:00 2026'' old_db)) \<and>
   map updated_at (players (loaded (sample_rows 200) ''Tue Nov  3 14:46:00 2026''
               (loaded (sample_rows 100) ''Tue Nov  3 14:46:00 2026'' old_db))) =
     [SInt 50, SInt 200, SInt 200]"
proof -
  let ?d1 = "loaded (sample_rows 100) ''Tue Nov  3 14:46:00 2026'' empty_db"
  let ?d2 = "loaded (sample_rows 200) ''Tue Nov  3 14:46:00 2026'' ?d1"
  let ?e1 = "loaded (sample_rows 100) ''Tue Nov  3 14:46:00 2026'' old_db"
  let ?e2 = "loaded (sample_rows 200) ''Tue Nov  3 14:46:00 2026'' ?e1"
  have d: "distinct (map player_id (players empty_db))" by (simp add: empty_db_def)
  have n: "net (sample_env sample_players 200 None) = net (sample_env sample_players 100 None)"
    by (rule net_sample)
  have m1: "main sample_runtime (sample_env sample_players 100 None) empty_db = (Inr 2, ?d1)"
    by (rule main_sample) simp_all
  have m2: "main sample_runtime (sample_env sample_players 200 None) ?d1 = (Inr 2, ?d2)"
    by (rule main_sample) simp_all
  have e: "players empty_db = []" by (simp add: empty_db_def)
  from loader_idempotent[OF d n m1 m2] e
  have t: "length (players ?d2) = length (players ?d1)"
    "players ?d2 = map (\<lambda>x. x\<lparr> updated_at := SInt 200 \<rparr>) (players ?d1)"
    by (simp_all add: clock_sample)
  have p: "players ?d1 = sample_rows 100" by (rule players_first_run)
  have o1: "main sample_runtime (sample_env sample_players 100 None) old_db = (Inr 2, ?e1)"
    by (rule main_sample) simp_all
  have o2: "main sample_runtime (sample_env sample_players 200 None) ?e1 = (Inr 2, ?e2)"
    by (rule main_sample) simp_all
  have r: "run_rows sample_runtime (sample_env sample_players 100 None) = Inr (sample_rows 100)"
    by (rule run_rows_sample) simp_all
  from loader_idempotent[OF distinct_old_db n o1 o2] r
  have s: "players ?e2 =
     map (\<lambda>x. if player_id x \<in> player_id ` set (sample_rows 100)
               then x\<lparr> updated_at := SInt 200 \<rparr> else x) (players ?e1)"
    by (simp add: clock_sample)
  have u: "map updated_at (players ?e2) = [SInt 50, SInt 200, SInt 200]"
    by (simp add: players_old_db_second_run) (simp add: sample_rows_def blank_row_def)
  from d n m1 m2 t p distinct_old_db o1 o2 s u show ?thesis by (intro conjI)
qed

text \<open>
  C3 as stated fails: in a table that holds a row left by an earlier load (key 9, not in
  the dataset), both runs succeed and that row still carries its old \<open>updated_at\<close> 50
  after the second run, not the second fetch time 200.
\<close>

theorem stale_row_keeps_updated_at_counterexample:
  "main sample_runtime (sample_env sample_players 100 None) old_db =
     (Inr 2, loaded (sample_rows 100) ''Tue Nov  3 14:46:00 2026'' old_db) \<and>
   main sample_runtime (sample_env sample_players 200 None)
       (loaded (sample_rows 100) ''Tue Nov  3 14:46:00 2026'' old_db) =
     (Inr 2, loaded (sample_rows 200) ''Tue Nov  3 14:46:00 2026''
               (loaded (sample_rows 100) ''Tue Nov  3 14:46:00 2026'' old_db)) \<and>
   map player_id (players (loaded (sample_rows 100) ''Tue Nov  3 14:46:00 2026'' old_db)) =
     [SText ''9'', SText ''1'', SText ''2''] \<and>
   map updated_at (players (loaded (sample_rows 100) ''Tue Nov  3 14:46:00 2026'' old_db)) =
     [SInt 50, SInt 100, SInt 100] \<and>
   map player_id (players (loaded (sample_rows 200) ''Tue Nov  3 14:46:00 2026''
               (loaded (sample_rows 100) ''Tue Nov  3 14:46:00 2026'' old_db))) =
     [SText ''9'', SText ''1'', SText ''2''] \<and>
   map updated_at (players (loaded (sample_rows 200) ''Tue Nov  3 14:46:00 2026''
               (loaded (sample_rows 100) ''Tue Nov  3 14:46:00 2026'' old_db))) =
     [SInt 50, SInt 200, SInt 200] \<and>
   players (loaded (sample_rows 200) ''Tue Nov  3 14:46:00 2026''
               (loaded (sample_rows 100) ''Tue Nov  3 14:46:00 2026'' old_db)) \<noteq>
     map (\<lambda>x. x\<lparr> updated_at := SInt 200 \<rparr>)
       (players (loaded (sample_rows 100) ''Tue Nov  3 14:46:00 2026'' old_db))"
proof -
  let ?e1 = "loaded (sample_rows 100) ''Tue Nov  3 14:46:00 2026'' old_db"
  let ?e2 = "loaded (sample_rows 200) ''Tue Nov  3 14:46:00 2026'' ?e1"
  have o1: "main sample_runtime (sample_env sample_players 100 None) old_db = (Inr 2, ?e1)"
    by (rule main_sample) simp_all
  have o2: "main sample_runtime (sample_env sample_players 200 None) ?e1 = (Inr 2, ?e2)"
    by (rule main_sample) simp_all
  have k1: "map player_id (players ?e1) = [SText ''9'', SText ''1'', SText ''2'']"
    by (simp add: players_old_db_run) (simp add: sample_rows_def blank_row_def)
  have u1: "map updated_at (players ?e1) = [SInt 50, SInt 100, SInt 100]"
    by (simp add: players_old_db_run) (simp add: sample_rows_def blank_row_def)
  have k2: "map player_id (players ?e2) = [SText ''9'', SText ''1'', SText ''2'']"
    by (simp add: players_old_db_second_run) (simp add: sample_rows_def blank_row_def)
  have u2: "map updated_at (players ?e2) = [SInt 50, SInt 200, SInt 200]"
    by (simp add: players_old_db_second_run) (simp add: sample_rows_def blank_row_def)
  have ne: "players ?e2 \<noteq> map (\<lambda>x. x\<lparr> updated_at := SInt 200 \<rparr>) (players ?e1)"
  proof
    assume "players ?e2 = map (\<lambda>x. x\<lparr> updated_at := SInt 200 \<rparr>) (players ?e1)"
    then have "map updated_at (players ?e2) =
        map updated_at (map (\<lambda>x. x\<lparr> updated_at := SInt 200 \<rparr>) (players ?e1))"
      by simp
    with u2 show False by (simp add: players_old_db_run)
  qed
  from o1 o2 k1 u1 k2 u2 ne show ?thesis by (intro conjI)
qed

text \<open>
  C4. For valid path parameters each of the four routes is served by the call of
  \<open>sleeper_get\<close> with the upstream path of the table, and \<open>sleeper_get\<close> requests exactly
  the base URL followed by that path, with no query parameters.
\<close>

theorem upstream_path_substitution:
  assumes "valid_param uid" and "valid_param sp" and "valid_param se" and "valid_param lid"
  shows "app_get up (''/sleeper/user/'' @ uid) = sleeper_get up (''/user/'' @ uid) None \<and>
         app_get up (''/sleeper/'' @ uid @ ''/leagues/'' @ sp @ ''/'' @ se) =
           sleeper_get up (''/user/'' @ uid @ ''/leagues/'' @ sp @ ''/'' @ se) None \<and>
         app_get up (''/sleeper/league/'' @ lid) = sleeper_get up (''/league/'' @ lid) None \<and>
         app_get up (''/sleeper/league/'' @ lid @ ''/rosters'') =
           sleeper_get up (''/league/'' @ lid @ ''/rosters'') None \<and>
         snd (sleeper_get up path None) = [(SLEEPER_BASE_URL @ path, None)]"
proof -
  have a: "app_get up (''/sleeper/user/'' @ uid) = sleeper_get up (''/user/'' @ uid) None"
    using route_user[OF assms(1)] by (simp only: get_user_def)
  have b: "app_get up (''/sleeper/'' @ uid @ ''/leagues/'' @ sp @ ''/'' @ se) =
           sleeper_get up (''/user/'' @ uid @ ''/leagues/'' @ sp @ ''/'' @ se) None"
    using route_user_leagues[OF assms(1,2,3)] by (simp only: get_user_leagues_def)
  have c: "app_get up (''/sleeper/league/'' @ lid) = sleeper_get up (''/league/'' @ lid) None"
    using route_league[OF assms(4)] by (simp only: get_league_def)
  have d: "app_get up (''/sleeper/league/'' @ lid @ ''/rosters'') =
           sleeper_get up (''/league/'' @ lid @ ''/rosters'') None"
    using route_league_rosters[OF assms(4)] by (simp only: get_league_rosters_def)
  show ?thesis
    by (simp only: a b c d sleeper_get_requests simp_thms)
qed

text \<open>The four routes at the parameters 42, nfl, 2024 and 123.\<close>

theorem upstream_path_substitution_witness:
  "valid_param ''42'' \<and> valid_param ''nfl'' \<and> valid_param ''2024'' \<and> valid_param ''123'' \<and>
   snd (app_get (\<lambda>q. Inl (RequestError ''down'')) ''/sleeper/user/42'') =
     [(''https://api.sleeper.app/v1/user/42'', None)] \<and>
   snd (app_get (\<lambda>q. Inl (RequestError ''down'')) ''/sleeper/42/leagues/nfl/2024'') =
     [(''https://api.sleeper.app/v1/user/42/leagues/nfl/2024'', None)] \<and>
   snd (app_get (\<lambda>q. Inl (RequestError ''down'')) ''/sleeper/league/123'') =
     [(''https://api.sleeper.app/v1/league/123'', None)] \<and>
   snd (app_get (\<lambda>q. Inl (RequestError ''down'')) ''/sleeper/league/123/rosters'') =
     [(''https://api.sleeper.app/v1/league/123/rosters'', None)]"
proof -
  have v: "valid_param ''42''" "valid_param ''nfl''" "valid_param ''2024''" "valid_param ''123''"
    by (simp_all add: valid_param_def)
  show ?thesis
    using v upstream_path_substitution[OF v, of "\<lambda>q. Inl (RequestError ''down'')" "[]"]
    by (simp add: sleeper_get_def SLEEPER_BASE_URL_def)
qed

text \<open>
  C5, as amended. Whatever path is requested: when the proxy contacts the upstream and the
  upstream answers, that request is the only one (no retry); a status of 400 or more is
  raised as an \<open>HTTPException\<close> with the upstream's status and body text, the same way
  for every such status; below 400 the decoded body is returned when the body is a JSON
  document, and the error of \<open>resp.json()\<close> is raised, uncaught, when it is not.
\<close>

theorem upstream_status_relayed:
  assumes "snd (app_get up p) = q # qs" and "up q = Inr resp"
  shows "qs = [] \<and>
         fst (app_get up p) =
           (if status_code resp \<ge> 400
            then Inl (HTTPException (status_code resp) (resp_text resp))
            else (case resp_json resp of
                    Some j \<Rightarrow> Inr j
                  | None \<Rightarrow> Inl (Uncaught JSONDecodeError)))"
proof -
  from app_get_cases[of up p] assms(1)
  obtain path where g: "app_get up p = sleeper_get up path None"
    by (auto simp: root_def)
  with assms(1) have q: "q = (SLEEPER_BASE_URL @ path, None)" and "qs = []"
    by (simp_all add: sleeper_get_requests)
  with assms(2) g show ?thesis
    by (simp add: sleeper_get_def Let_def)
qed

text \<open>An upstream answering 404 \<open>not found\<close>, and one answering 200 with an empty object.\<close>

theorem upstream_status_relayed_witness:
  "snd (app_get (\<lambda>q. Inr \<lparr>status_code = 404, resp_text = ''not found'', resp_json = None\<rparr>)
          ''/sleeper/league/123/rosters'') =
     [(''https://api.sleeper.app/v1/league/123/rosters'', None)] \<and>
   fst (app_get (\<lambda>q. Inr \<lparr>status_code = 404, resp_text = ''not found'', resp_json = None\<rparr>)
          ''/sleeper/league/123/rosters'') = Inl (HTTPException 404 ''not found'') \<and>
   snd (app_get (\<lambda>q. Inr \<lparr>status_code = 200, resp_text = ''{}'', resp_json = Some (JObj [])\<rparr>)
          ''/sleeper/user/42'') =
     [(''https://api.sleeper.app/v1/user/42'', None)] \<and>
   fst (app_get (\<lambda>q. Inr \<lparr>status_code = 200, resp_text = ''{}'', resp_json = Some (JObj [])\<rparr>)
          ''/sleeper/user/42'') = Inr (JObj [])"
proof -
  let ?up = "\<lambda>q::request. Inr \<lparr>status_code = 404, resp_text = ''not found'', resp_json = None\<rparr> :: error + response"
  let ?ok = "\<lambda>q::request. Inr \<lparr>status_code = 200, resp_text = ''{}'', resp_json = Some (JObj [])\<rparr> :: error + response"
  have a: "snd (app_get ?up ''/sleeper/league/123/rosters'') =
     [(''https://api.sleeper.app/v1/league/123/rosters'', None)]"
    by (simp add: app_get_def routes_def arg_def get_league_rosters_def sleeper_get_def
        SLEEPER_BASE_URL_def)
  have b: "snd (app_get ?ok ''/sleeper/user/42'') = [(''https://api.sleeper.app/v1/user/42'', None)]"
    by (simp add: app_get_def routes_def arg_def get_user_def sleeper_get_def
        SLEEPER_BASE_URL_def)
  from upstream_status_relayed[OF a, of _] upstream_status_relayed[OF b, of _] a b
  show ?thesis by simp
qed

text \<open>
  C5 as stated fails: an upstream answering 204 with an empty body has a status below 400,
  and the proxy returns no decoded body but raises the decoding error.
\<close>

theorem non_json_body_counterexample:
  "snd (app_get (\<lambda>q. Inr \<lparr>status_code = 204, resp_text = [], resp_json = None\<rparr>)
          ''/sleeper/user/42'') =
     [(''https://api.sleeper.app/v1/user/42'', None)] \<and>
   status_code \<lparr>status_code = 204, resp_text = [], resp_json = None\<rparr> < 400 \<and>
   fst (app_get (\<lambda>q. Inr \<lparr>status_code = 204, resp_text = [], resp_json = None\<rparr>)
          ''/sleeper/user/42'') = Inl (Uncaught JSONDecodeError)"
  by (simp add: app_get_def routes_def arg_def get_user_def sleeper_get_def SLEEPER_BASE_URL_def)

text \<open>
  C6. Whatever path is requested: when the outbound request fails in transport, the proxy
  raises an \<open>HTTPException\<close> with status 502 whose detail ends with the text of the
  exception, after that one request.
\<close>

theorem transport_failure_502:
  assumes "snd (app_get up p) = q # qs" and "up q = Inl (RequestError e)"
  shows "qs = [] \<and> fst (app_get up p) = Inl (HTTPException 502 (''Could not reach Sleeper: '' @ e))"
proof -
  from app_get_cases[of up p] assms(1)
  obtain path where g: "app_get up p = sleeper_get up path None"
    by (auto simp: root_def)
  with assms(1) have q: "q = (SLEEPER_BASE_URL @ path, None)" and "qs = []"
    by (simp_all add: sleeper_get_requests)
  with assms(2) g show ?thesis
    by (simp add: sleeper_get_def Let_def)
qed

text \<open>An upstream that times out.\<close>

theorem transport_failure_502_witness:
  "snd (app_get (\<lambda>q. Inl (RequestError ''timed out'')) ''/sleeper/user/42'') =
     [(''https://api.sleeper.app/v1/user/42'', None)] \<and>
   fst (app_get (\<lambda>q. Inl (RequestError ''timed out'')) ''/sleeper/user/42'') =
     Inl (HTTPException 502 ''Could not reach Sleeper: timed out'')"
proof -
  let ?up = "\<lambda>q::request. Inl (RequestError ''timed out'') :: error + response"
  have a: "snd (app_get ?up ''/sleeper/user/42'') = [(''https://api.sleeper.app/v1/user/42'', None)]"
    by (simp add: app_get_def routes_def arg_def get_user_def sleeper_get_def
        SLEEPER_BASE_URL_def)
  from transport_failure_502[OF a, of "''timed out''"] a show ?thesis by simp
qed

text \<open>
  C7. When every row of the players table has a key and a payload before a successful run
  (as in an empty table), every row has them after it. Every other column filled from the
  record is null when the record lacks the field; \<open>full_name\<close> is null when the record lacks
  the two names and the full name.
\<close>

theorem rows_have_key_and_payload:
  assumes "main rt ev d0 = (Inr n, d)"
    and "\<forall>x\<in>set (players d0). player_id x \<noteq> SNull \<and> data_json x \<noteq> SNull"
  shows "(\<forall>x\<in>set (players d). player_id x \<noteq> SNull \<and> data_json x \<noteq> SNull) \<and>
         (\<forall>now key p r s. prepare_row rt now key (JObj p) = Inr r \<and> bind_row r = Inr s \<longrightarrow>
           (map_of p ''first_name'' = None \<longrightarrow> first_name s = SNull) \<and>
           (map_of p ''last_name'' = None \<longrightarrow> last_name s = SNull) \<and>
           (map_of p ''first_name'' = None \<and> map_of p ''last_name'' = None \<and>
            map_of p ''full_name'' = None \<longrightarrow> full_name s = SNull) \<and>
           (map_of p ''search_full_name'' = None \<longrightarrow> search_full_name s = SNull) \<and>
           (map_of p ''search_first_name'' = None \<longrightarrow> search_first_name s = SNull) \<and>
           (map_of p ''search_last_name'' = None \<longrightarrow> search_last_name s = SNull) \<and>
           (map_of p ''team'' = None \<longrightarrow> team s = SNull) \<and>
           (map_of p ''position'' = None \<longrightarrow> position s = SNull) \<and>
           (map_of p ''status'' = None \<longrightarrow> status s = SNull) \<and>
           (map_of p ''sport'' = None \<longrightarrow> sport s = SNull) \<and>
           (map_of p ''number'' = None \<longrightarrow> number s = SNull) \<and>
           (map_of p ''age'' = None \<longrightarrow> age s = SNull) \<and>
           (map_of p ''depth_chart_position'' = None \<longrightarrow> depth_chart_position s = SNull) \<and>
           (map_of p ''depth_chart_order'' = None \<longrightarrow> depth_chart_order s = SNull) \<and>
           (map_of p ''years_exp'' = None \<longrightarrow> years_exp s = SNull) \<and>
           (map_of p ''fantasy_positions'' = None \<longrightarrow> fantasy_positions_json s = SNull))"
proof (rule conjI)
  show "\<forall>x\<in>set (players d). player_id x \<noteq> SNull \<and> data_json x \<noteq> SNull"
    by (rule players_key_payload_invariant[OF assms])
next
  show "\<forall>now key p r s. prepare_row rt now key (JObj p) = Inr r \<and> bind_row r = Inr s \<longrightarrow>
           (map_of p ''first_name'' = None \<longrightarrow> first_name s = SNull) \<and>
           (map_of p ''last_name'' = None \<longrightarrow> last_name s = SNull) \<and>
           (map_of p ''first_name'' = None \<and> map_of p ''last_name'' = None \<and>
            map_of p ''full_name'' = None \<longrightarrow> full_name s = SNull) \<and>
           (map_of p ''search_full_name'' = None \<longrightarrow> search_full_name s = SNull) \<and>
           (map_of p ''search_first_name'' = None \<longrightarrow> search_first_name s = SNull) \<and>
           (map_of p ''search_last_name'' = None \<longrightarrow> search_last_name s = SNull) \<and>
           (map_of p ''team'' = None \<longrightarrow> team s = SNull) \<and>
           (map_of p ''position'' = None \<longrightarrow> position s = SNull) \<and>
           (map_of p ''status'' = None \<longrightarrow> status s = SNull) \<and>
           (map_of p ''sport'' = None \<longrightarrow> sport s = SNull) \<and>
           (map_of p ''number'' = None \<longrightarrow> number s = SNull) \<and>
           (map_of p ''age'' = None \<longrightarrow> age s = SNull) \<and>
           (map_of p ''depth_chart_position'' = None \<longrightarrow> depth_chart_position s = SNull) \<and>
           (map_of p ''depth_chart_order'' = None \<longrightarrow> depth_chart_order s = SNull) \<and>
           (map_of p ''years_exp'' = None \<longrightarrow> years_exp s = SNull) \<and>
           (map_of p ''fantasy_positions'' = None \<longrightarrow> fantasy_positions_json s = SNull)"
  proof (intro allI impI, elim conjE)
    fix now key p r s
    assume "prepare_row rt now key (JObj p) = Inr r" and "bind_row r = Inr s"
    then show "(map_of p ''first_name'' = None \<longrightarrow> first_name s = SNull) \<and>
           (map_of p ''last_name'' = None \<longrightarrow> last_name s = SNull) \<and>
           (map_of p ''first_name'' = None \<and> map_of p ''last_name'' = None \<and>
            map_of p ''full_name'' = None \<longrightarrow> full_name s = SNull) \<and>
           (map_of p ''search_full_name'' = None \<longrightarrow> search_full_name s = SNull) \<and>
           (map_of p ''search_first_name'' = None \<longrightarrow> search_first_name s = SNull) \<and>
           (map_of p ''search_last_name'' = None \<longrightarrow> search_last_name s = SNull) \<and>
           (map_of p ''team'' = None \<longrightarrow> team s = SNull) \<and>
           (map_of p ''position'' = None \<longrightarrow> position s = SNull) \<and>
           (map_of p ''status'' = None \<longrightarrow> status s = SNull) \<and>
           (map_of p ''sport'' = None \<longrightarrow> sport s = SNull) \<and>
           (map_of p ''number'' = None \<longrightarrow> number s = SNull) \<and>
           (map_of p ''age'' = None \<longrightarrow> age s = SNull) \<and>
           (map_of p ''depth_chart_position'' = None \<longrightarrow> depth_chart_position s = SNull) \<and>
           (map_of p ''depth_chart_order'' = None \<longrightarrow> depth_chart_order s = SNull) \<and>
           (map_of p ''years_exp'' = None \<longrightarrow> years_exp s = SNull) \<and>
           (map_of p ''fantasy_positions'' = None \<longrightarrow> fantasy_positions_json s = SNull)"
      by (rule optional_columns_null)
  qed
qed

text \<open>
  The sample dataset loaded into a database of two rows; the second record has neither a
  team nor a first name.
\<close>

theorem rows_have_key_and_payload_witness:
  "main sample_runtime (sample_env sample_players 100 None) old_db =
     (Inr 2, loaded (sample_rows 100) ''Tue Nov  3 14:46:00 2026'' old_db) \<and>
   list_all (\<lambda>x. player_id x \<noteq> SNull \<and> data_json x \<noteq> SNull) (players old_db) \<and>
   list_all (\<lambda>x. player_id x \<noteq> SNull \<and> data_json x \<noteq> SNull)
     (players (loaded (sample_rows 100) ''Tue Nov  3 14:46:00 2026'' old_db)) \<and>
   length (players (loaded (sample_rows 100) ''Tue Nov  3 14:46:00 2026'' old_db)) = 3 \<and>
   map_of only_full_name ''team'' = None \<and>
   team ((blank_row ''2'' 100)\<lparr> full_name := SText ''X Y'' \<rparr>) = SNull \<and>
   map_of only_full_name ''first_name'' = None \<and>
   first_name ((blank_row ''2'' 100)\<lparr> full_name := SText ''X Y'' \<rparr>) = SNull"
proof -
  have m: "main sample_runtime (sample_env sample_players 100 None) old_db =
     (Inr 2, loaded (sample_rows 100) ''Tue Nov  3 14:46:00 2026'' old_db)"
    by (rule main_sample) simp_all
  have h: "\<forall>x\<in>set (players old_db). player_id x \<noteq> SNull \<and> data_json x \<noteq> SNull"
    by (simp add: old_db_def blank_row_def)
  note t = rows_have_key_and_payload[OF m h]
  note q = t[THEN conjunct2, rule_format,
      OF conjI[OF prepare_only_full_name[of 100] bind_only_full_name]]
  from t have a: "list_all (\<lambda>x. player_id x \<noteq> SNull \<and> data_json x \<noteq> SNull)
     (players (loaded (sample_rows 100) ''Tue Nov  3 14:46:00 2026'' old_db))"
    by (simp add: list_all_iff)
  from q
  have b: "team ((blank_row ''2'' 100)\<lparr> full_name := SText ''X Y'' \<rparr>) = SNull \<and>
           first_name ((blank_row ''2'' 100)\<lparr> full_name := SText ''X Y'' \<rparr>) = SNull"
    by (simp add: only_full_name_def)
  have c: "map_of only_full_name ''team'' = None" "map_of only_full_name ''first_name'' = None"
    by (simp_all add: only_full_name_def)
  have l: "length (players (loaded (sample_rows 100) ''Tue Nov  3 14:46:00 2026'' old_db)) = 3"
    by (simp add: players_old_db_run) (simp add: sample_rows_def)
  from m h a b c l show ?thesis by (simp add: list_all_iff)
qed

text \<open>
  C8. After a successful run every key of the run is in the table, and every row with such a
  key has \<open>updated_at\<close> equal to the clock read once at line 102, whatever the row held
  before; a row with another key is a row of the table before the run. The table before the
  run satisfies its primary key.
\<close>

theorem updated_at_is_fetch_time:
  assumes "main rt ev d0 = (Inr n, d)" and "distinct (map player_id (players d0))"
  shows "\<exists>srows. run_rows rt ev = Inr srows \<and>
           player_id ` set srows \<subseteq> player_id ` set (players d) \<and>
           (\<forall>x\<in>set (players d).
              if player_id x \<in> player_id ` set srows
              then updated_at x = SInt (clock ev)
              else x \<in> set (players d0))"
proof -
  from main_success[OF assms(1)] obtain S where
    r: "run_rows rt ev = Inr S" and d: "d = loaded S (clock_text ev) d0" by auto
  have k: "\<forall>s\<in>set S. player_id s \<noteq> SNull" by (rule run_rows_keys[OF r])
  have T: "players d = fold upsert S (players d0)" by (simp add: d players_loaded)
  have sub: "player_id ` set S \<subseteq> player_id ` set (players d)"
    unfolding T keys_fold_upsert[OF k] by simp
  have "\<And>x. x \<in> set (players d) \<Longrightarrow>
         (if player_id x \<in> player_id ` set S then updated_at x = SInt (clock ev)
          else x \<in> set (players d0))"
  proof -
    fix x assume "x \<in> set (players d)"
    with table_row_cases[OF k assms(2), of x] T
    have c: "(case latest (player_id x) S of Some s \<Rightarrow> x = s | None \<Rightarrow> x \<in> set (players d0))"
      by simp
    show "(if player_id x \<in> player_id ` set S then updated_at x = SInt (clock ev)
          else x \<in> set (players d0))"
    proof (cases "latest (player_id x) S")
      case None
      with latest_None[of "player_id x" S] have "player_id x \<notin> player_id ` set S" by simp
      with None c show ?thesis by simp
    next
      case (Some s)
      with c have xs: "x = s" by simp
      from latest_Some[OF Some] have "s \<in> set S" by simp
      with run_rows_facts[OF r] xs have "updated_at x = SInt (clock ev)" by blast
      moreover from Some have "player_id x \<in> player_id ` set S"
        using latest_None[of "player_id x" S] by auto
      ultimately show ?thesis by simp
    qed
  qed
  with r sub show ?thesis by (intro exI[of _ S]) simp
qed

text \<open>
  A table that holds key 1 with the later timestamp 999: the run at clock 100 sets it to
  100, and leaves the row of key 9 alone.
\<close>

theorem updated_at_is_fetch_time_witness:
  "distinct (map player_id (players old_db)) \<and>
   main sample_runtime (sample_env sample_players 100 None) old_db =
     (Inr 2, loaded (sample_rows 100) ''Tue Nov  3 14:46:00 2026'' old_db) \<and>
   map player_id (players old_db) = [SText ''9'', SText ''1''] \<and>
   map updated_at (players old_db) = [SInt 50, SInt 999] \<and>
   map player_id (players (loaded (sample_rows 100) ''Tue Nov  3 14:46:00 2026'' old_db)) =
     [SText ''9'', SText ''1'', SText ''2''] \<and>
   map updated_at (players (loaded (sample_rows 100) ''Tue Nov  3 14:46:00 2026'' old_db)) =
     [SInt 50, SInt 100, SInt 100] \<and>
   (\<exists>srows. run_rows sample_runtime (sample_env sample_players 100 None) = Inr srows \<and>
      player_id ` set srows \<subseteq>
        player_id ` set (players (loaded (sample_rows 100) ''Tue Nov  3 14:46:00 2026'' old_db)))"
proof -
  have m: "main sample_runtime (sample_env sample_players 100 None) old_db =
     (Inr 2, loaded (sample_rows 100) ''Tue Nov  3 14:46:00 2026'' old_db)"
    by (rule main_sample) simp_all
  from updated_at_is_fetch_time[OF m distinct_old_db]
  have e: "\<exists>srows. run_rows sample_runtime (sample_env sample_players 100 None) = Inr srows \<and>
      player_id ` set srows \<subseteq>
        player_id ` set (players (loaded (sample_rows 100) ''Tue Nov  3 14:46:00 2026'' old_db))"
    by (elim exE conjE, intro exI conjI)
  have o: "map player_id (players old_db) = [SText ''9'', SText ''1'']"
    "map updated_at (players old_db) = [SInt 50, SInt 999]"
    by (simp_all add: old_db_def blank_row_def)
  have n: "map player_id (players (loaded (sample_rows 100) ''Tue Nov  3 14:46:00 2026'' old_db)) =
     [SText ''9'', SText ''1'', SText ''2'']"
    "map updated_at (players (loaded (sample_rows 100) ''Tue Nov  3 14:46:00 2026'' old_db)) =
     [SInt 50, SInt 100, SInt 100]"
    by (simp_all add: players_old_db_run) (simp_all add: sample_rows_def blank_row_def)
  from distinct_old_db m o n e show ?thesis by (intro conjI)
qed

text \<open>
  C9. In a successful run the fetched document is a mapping, every item gives one row, and
  the key of the row is the string conversion of the record's \<open>player_id\<close> when that is
  truthy and the item's own key otherwise. For every key of the run the table then holds
  exactly one row with it: the last row of the run with that key.
\<close>

theorem derived_key_last_write_wins:
  assumes "main rt ev d0 = (Inr n, d)" and "distinct (map player_id (players d0))"
  shows "\<exists>items srows.
           fetch_players (net ev) = Inr (JObj items) \<and> run_rows rt ev = Inr srows \<and>
           length srows = length items \<and>
           (\<forall>i<length items. \<exists>p. snd (items ! i) = JObj p \<and>
              player_id (srows ! i) =
                SText (if truthy (dict_get p ''player_id'')
                       then py_str rt (dict_get p ''player_id'') else fst (items ! i))) \<and>
           (\<forall>s\<in>set srows.
              filter (\<lambda>x. player_id x = player_id s) (players d) =
                [last (filter (\<lambda>s'. player_id s' = player_id s) srows)])"
proof -
  from main_success[OF assms(1)] obtain S where
    r: "run_rows rt ev = Inr S" and d: "d = loaded S (clock_text ev) d0" by auto
  from run_rows_stored[OF r] obtain items where
    f: "fetch_players (net ev) = Inr (JObj items)" and
    l: "list_all2 (stored rt (clock ev)) items S" by auto
  have len: "length S = length items" using l by (simp add: list_all2_lengthD)
  have keys: "\<forall>i<length items. \<exists>p. snd (items ! i) = JObj p \<and>
              player_id (S ! i) =
                SText (if truthy (dict_get p ''player_id'')
                       then py_str rt (dict_get p ''player_id'') else fst (items ! i))"
  proof (intro allI impI)
    fix i assume "i < length items"
    with l have "stored rt (clock ev) (fst (items ! i), snd (items ! i)) (S ! i)"
      by (simp add: list_all2_nthD)
    from stored_keys[OF this] show "\<exists>p. snd (items ! i) = JObj p \<and>
              player_id (S ! i) =
                SText (if truthy (dict_get p ''player_id'')
                       then py_str rt (dict_get p ''player_id'') else fst (items ! i))"
      by (auto simp: row_key_eq)
  qed
  have k: "\<forall>s\<in>set S. player_id s \<noteq> SNull" by (rule run_rows_keys[OF r])
  have T: "players d = fold upsert S (players d0)" by (simp add: d players_loaded)
  have dist: "distinct (map player_id (players d))"
    unfolding T by (rule distinct_fold_upsert[OF k assms(2)])
  have one: "\<forall>s\<in>set S.
              filter (\<lambda>x. player_id x = player_id s) (players d) =
                [last (filter (\<lambda>s'. player_id s' = player_id s) S)]"
  proof
    fix s assume s: "s \<in> set S"
    then have ne: "filter (\<lambda>s'. player_id s' = player_id s) S \<noteq> []"
      by (auto simp: filter_empty_conv)
    have "row_of (player_id s) (players d) =
            Some (last (filter (\<lambda>s'. player_id s' = player_id s) S))"
      unfolding T row_of_fold_upsert[OF k] latest_last using ne by simp
    with filter_key_distinct[OF dist, of "player_id s"]
    show "filter (\<lambda>x. player_id x = player_id s) (players d) =
                [last (filter (\<lambda>s'. player_id s' = player_id s) S)]"
      by simp
  qed
  from f r len keys one show ?thesis by (intro exI[of _ items] exI[of _ S] conjI)
qed

text \<open>
  Items \<open>a\<close> and \<open>b\<close> with the \<open>player_id\<close> \<open>"7"\<close> and \<open>7\<close>: one row, with the values
  of \<open>b\<close>.
\<close>

theorem derived_key_last_write_wins_witness:
  "distinct (map player_id (players empty_db)) \<and>
   main sample_runtime (sample_env colliding_players 100 None) empty_db =
     (Inr 3, loaded (colliding_rows 100) ''Tue Nov  3 14:46:00 2026'' empty_db) \<and>
   map player_id (colliding_rows 100) = [SText ''7'', SText ''7'', SText ''c''] \<and>
   players (loaded (colliding_rows 100) ''Tue Nov  3 14:46:00 2026'' empty_db) =
     [(blank_row ''7'' 100)\<lparr> first_name := SText ''Second'', full_name := SText ''Second'' \<rparr>,
      blank_row ''c'' 100] \<and>
   filter (\<lambda>x. player_id x = SText ''7'')
     (players (loaded (colliding_rows 100) ''Tue Nov  3 14:46:00 2026'' empty_db)) =
     [last (filter (\<lambda>s. player_id s = SText ''7'') (colliding_rows 100))]"
proof -
  let ?d = "loaded (colliding_rows 100) ''Tue Nov  3 14:46:00 2026'' empty_db"
  have d: "distinct (map player_id (players empty_db))" by (simp add: empty_db_def)
  have m: "main sample_runtime (sample_env colliding_players 100 None) empty_db = (Inr 3, ?d)"
    by (rule main_colliding)
  have k: "map player_id (colliding_rows 100) = [SText ''7'', SText ''7'', SText ''c'']"
    by (simp add: colliding_rows_def blank_row_def)
  from derived_key_last_write_wins[OF m d] obtain srows where
    r: "run_rows sample_runtime (sample_env colliding_players 100 None) = Inr srows" and
    a: "\<forall>s\<in>set srows.
              filter (\<lambda>x. player_id x = player_id s) (players ?d) =
                [last (filter (\<lambda>s'. player_id s' = player_id s) srows)]"
    by blast
  from r have s: "srows = colliding_rows 100" by (simp add: run_rows_colliding)
  have "blank_row ''c'' 100 \<in> set srows \<and> player_id (blank_row ''c'' 100) = SText ''c''"
    by (simp add: s colliding_rows_def blank_row_def)
  have i: "(blank_row ''7'' 100)\<lparr> first_name := SText ''First'', full_name := SText ''First'' \<rparr>
             \<in> set srows"
    by (simp add: s colliding_rows_def)
  have "player_id ((blank_row ''7'' 100)\<lparr> first_name := SText ''First'',
           full_name := SText ''First'' \<rparr>) = SText ''7''"
    by (simp add: blank_row_def)
  with a[rule_format, OF i] s
  have f: "filter (\<lambda>x. player_id x = SText ''7'') (players ?d) =
     [last (filter (\<lambda>s. player_id s = SText ''7'') (colliding_rows 100))]"
    by simp
  from d m k players_colliding_run f show ?thesis by (intro conjI)
qed

text \<open>
  C10. The route table has a fifth route: \<open>GET /\<close> returns the object with the message
  \<open>Hello World\<close> and issues no outbound request, whatever the upstream.
\<close>

theorem root_hello_world:
  "app_get up ''/'' = (Inr (JObj [(''message'', JStr ''Hello World'')]), []) \<and>
   length routes = 5"
  by (simp add: app_get_def routes_def root_def)

end
